theory Spec2Isabelle
  imports Complex_Main
begin

section \<open>Thrown values\<close>

text \<open>
  A rejected promise or a \<open>throw\<close> is a value of type \<open>thrown\<close>: an \<open>Error\<close> object
  with its message, or \<open>undefined\<close> (what \<open>throw lastError\<close> throws when the retry
  loop never ran). A fallible call returns \<open>thrown + 'a\<close>, \<open>Inl\<close> being the throw.
\<close>

datatype thrown = Error (message: string) | Undefined

section \<open>auditor.ts: the risk aggregator\<close>

text \<open>
  \<open>types.ts\<close>: \<open>AuthorityStatus\<close> holds two objects \<open>{isActive, address}\<close>;
  the field \<open>address\<close> is named \<open>authorityAddress\<close> here. Of \<open>LiquidityInfo\<close> only the
  two fields that \<open>calculateRiskScore\<close> reads are kept. Warning strings are written
  without their leading emoji.
\<close>

record AuthorityEntry =
  isActive :: bool
  authorityAddress :: "string option"

record AuthorityStatus =
  mintAuthority :: AuthorityEntry
  freezeAuthority :: AuthorityEntry

record MetadataInfo =
  isMutable :: bool
  updateAuthority :: "string option"
  uri :: "string option"

datatype LiquidityRisk = LiqSafe | LiqMedium | LiqHigh | LiqCritical

record LiquidityInfo =
  riskLevel :: LiquidityRisk
  liquidityWarnings :: "string list"

datatype AuditLevel = Safe | Caution | RugPullRisk

record RiskAssessment =
  score :: int
  level :: AuditLevel
  warnings :: "string list"

text \<open>\<open>config.ts\<close>, \<open>config.riskScoring\<close>.\<close>

definition initialScore :: int where "initialScore = 100"
definition penalty_mintAuthorityActive :: int where "penalty_mintAuthorityActive = 50"
definition penalty_freezeAuthorityActive :: int where "penalty_freezeAuthorityActive = 20"
definition penalty_metadataMutable :: int where "penalty_metadataMutable = 10"
definition threshold_safe :: int where "threshold_safe = 80"
definition threshold_caution :: int where "threshold_caution = 50"

text \<open>
  \<open>calculateRiskScore\<close> updates \<open>score\<close> and \<open>warnings\<close> in four consecutive checks;
  each check is a function from the pair to the pair.
\<close>

definition checkMintAuthority :: "AuthorityStatus \<Rightarrow> int \<times> string list \<Rightarrow> int \<times> string list" where
  "checkMintAuthority authorityStatus sw =
     (if isActive (mintAuthority authorityStatus)
      then (fst sw - penalty_mintAuthorityActive,
            snd sw @ [''CRITICAL: Mint Authority is active - Developer can mint unlimited tokens, diluting supply''])
      else (fst sw, snd sw @ [''SAFE: Mint Authority has been revoked - Supply is fixed'']))"

definition checkFreezeAuthority :: "AuthorityStatus \<Rightarrow> int \<times> string list \<Rightarrow> int \<times> string list" where
  "checkFreezeAuthority authorityStatus sw =
     (if isActive (freezeAuthority authorityStatus)
      then (fst sw - penalty_freezeAuthorityActive,
            snd sw @ [''WARNING: Freeze Authority is active - Developer can freeze token accounts''])
      else (fst sw, snd sw @ [''SAFE: Freeze Authority has been revoked - Accounts cannot be frozen'']))"

definition checkMetadataMutability :: "MetadataInfo \<Rightarrow> int \<times> string list \<Rightarrow> int \<times> string list" where
  "checkMetadataMutability metadataInfo sw =
     (if isMutable metadataInfo
      then (fst sw - penalty_metadataMutable,
            snd sw @ [''CAUTION: Metadata is mutable - Name, symbol, or image can be changed''])
      else (fst sw, snd sw @ [''SAFE: Metadata is immutable - Token identity is locked'']))"

definition checkLiquidity :: "LiquidityInfo option \<Rightarrow> int \<times> string list \<Rightarrow> int \<times> string list" where
  "checkLiquidity liquidityInfo sw =
     (case liquidityInfo of
        None \<Rightarrow> sw
      | Some li \<Rightarrow>
          (if riskLevel li = LiqCritical then (fst sw - 40, snd sw @ liquidityWarnings li)
           else if riskLevel li = LiqHigh then (fst sw - 25, snd sw @ liquidityWarnings li)
           else if riskLevel li = LiqMedium then (fst sw - 10, snd sw @ liquidityWarnings li)
           else (fst sw, snd sw @ liquidityWarnings li)))"

definition levelOfScore :: "int \<Rightarrow> AuditLevel" where
  "levelOfScore s =
     (if s \<ge> threshold_safe then Safe
      else if s \<ge> threshold_caution then Caution
      else RugPullRisk)"

definition calculateRiskScore ::
  "AuthorityStatus \<Rightarrow> MetadataInfo \<Rightarrow> LiquidityInfo option \<Rightarrow> RiskAssessment" where
  "calculateRiskScore authorityStatus metadataInfo liquidityInfo =
     (let sw = checkLiquidity liquidityInfo
                 (checkMetadataMutability metadataInfo
                   (checkFreezeAuthority authorityStatus
                     (checkMintAuthority authorityStatus (initialScore, []))));
          s = max 0 (fst sw)
      in \<lparr> score = s, level = levelOfScore s, warnings = snd sw \<rparr>)"

text \<open>
  The collaborators of \<open>auditToken\<close>. \<open>Mint\<close> is what \<open>getMint\<close> of
  \<open>@solana/spl-token\<close> resolves to (fields \<open>mintAuthority\<close>, \<open>freezeAuthority\<close>, here with the prefix \<open>mint_\<close>,
  \<open>supply\<close>, \<open>decimals\<close>; public keys are their base58 strings), \<open>Metadata\<close> what
  \<open>fetchMetadata\<close> of Metaplex resolves to. Each call of the Ledger Data Gateway is
  given by its outcome.
\<close>

record Mint =
  mint_mintAuthority :: "string option"
  mint_freezeAuthority :: "string option"
  mint_supply :: nat
  mint_decimals :: nat

record Metadata =
  md_isMutable :: bool
  md_updateAuthority :: string
  md_uri :: string

record TokenInfo =
  ti_name :: string
  ti_symbol :: string
  ti_decimals :: nat
  ti_supply :: string
  mintAddress :: string
  ti_image :: "string option"
  ti_description :: "string option"

record AuditResult =
  success :: bool
  tokenInfo :: TokenInfo
  authorityStatus :: AuthorityStatus
  metadataInfo :: MetadataInfo
  liquidityInfo :: "LiquidityInfo option"
  riskAssessment :: RiskAssessment
  timestamp :: string
  cluster :: string

text \<open>
  \<open>getMint(.., TOKEN_2022_PROGRAM_ID)\<close> with the fallback to \<open>TOKEN_PROGRAM_ID\<close> when the
  first call throws (a \<open>try/catch\<close> in \<open>auditor.ts\<close>, a \<open>.catch\<close> in
  \<open>developerTracker.ts\<close>).
\<close>

definition getMintWithFallback :: "thrown + Mint \<Rightarrow> thrown + Mint \<Rightarrow> thrown + Mint" where
  "getMintWithFallback token2022 legacy =
     (case token2022 of Inr mintInfo \<Rightarrow> Inr mintInfo | Inl _ \<Rightarrow> legacy)"

text \<open>\<open>error instanceof Error ? error.message : JSON.stringify(error)\<close>\<close>

definition errorText :: "thrown \<Rightarrow> string" where
  "errorText e = (case e of Error m \<Rightarrow> m | Undefined \<Rightarrow> ''undefined'')"

definition checkAuthorities :: "thrown + Mint \<Rightarrow> thrown + Mint \<Rightarrow> thrown + AuthorityStatus" where
  "checkAuthorities token2022 legacy =
     (case getMintWithFallback token2022 legacy of
        Inl error \<Rightarrow> Inl (Error (''Failed to check authorities: '' @ errorText error))
      | Inr mintInfo \<Rightarrow>
          Inr \<lparr> mintAuthority =
                  \<lparr> isActive = (mint_mintAuthority mintInfo \<noteq> None),
                    authorityAddress = mint_mintAuthority mintInfo \<rparr>,
                freezeAuthority =
                  \<lparr> isActive = (mint_freezeAuthority mintInfo \<noteq> None),
                    authorityAddress = mint_freezeAuthority mintInfo \<rparr> \<rparr>)"

text \<open>
  \<open>checkMetadata\<close>: the argument is the outcome of the body of its \<open>try\<close> block
  (\<open>createUmi\<close>, \<open>findMetadataPda\<close>, \<open>fetchMetadata\<close>).
\<close>

definition checkMetadata :: "thrown + Metadata \<Rightarrow> MetadataInfo" where
  "checkMetadata fetched =
     (case fetched of
        Inr metadata \<Rightarrow>
          \<lparr> isMutable = md_isMutable metadata,
            updateAuthority = Some (md_updateAuthority metadata),
            uri = Some (md_uri metadata) \<rparr>
      | Inl error \<Rightarrow> \<lparr> isMutable = False, updateAuthority = None, uri = None \<rparr>)"

text \<open>
  \<open>auditToken\<close>. \<open>mintPubkey\<close> is the outcome of \<open>new PublicKey(tokenAddress)\<close>,
  \<open>tokenInfoResult\<close> the outcome of \<open>getTokenInfo\<close>, which is not unfolded here. The
  liquidity analysis is commented out in the source, so \<open>liquidityInfo\<close> is
  \<open>undefined\<close>. \<open>Promise.all\<close> rejects with the rejection that happens first; the
  model reports \<open>getTokenInfo\<close>'s before \<open>checkAuthorities\<close>'s.
\<close>

record AuditEnv =
  mintPubkey :: "thrown + string"
  tokenInfoResult :: "thrown + TokenInfo"
  mint2022 :: "thrown + Mint"
  mintLegacy :: "thrown + Mint"
  metadataResult :: "thrown + Metadata"

definition auditFailure :: "thrown \<Rightarrow> thrown" where
  "auditFailure e =
     Error (''Failed to audit token: '' @ (case e of Error m \<Rightarrow> m | Undefined \<Rightarrow> ''Unknown error''))"

definition auditToken :: "AuditEnv \<Rightarrow> string \<Rightarrow> string \<Rightarrow> thrown + AuditResult" where
  "auditToken env now clusterName =
     (case mintPubkey env of
        Inl e \<Rightarrow> Inl (auditFailure e)
      | Inr pk \<Rightarrow>
         (case tokenInfoResult env of
            Inl e \<Rightarrow> Inl (auditFailure e)
          | Inr ti \<Rightarrow>
             (case checkAuthorities (mint2022 env) (mintLegacy env) of
                Inl e \<Rightarrow> Inl (auditFailure e)
              | Inr auth \<Rightarrow>
                 (let meta = checkMetadata (metadataResult env)
                  in Inr \<lparr> success = True, tokenInfo = ti, authorityStatus = auth,
                           metadataInfo = meta, liquidityInfo = None,
                           riskAssessment = calculateRiskScore auth meta None,
                           timestamp = now, cluster = clusterName \<rparr>))))"

text \<open>A mint whose metadata account cannot be read, with its mint authority still set.\<close>

definition unreadableMetadataEnv :: AuditEnv where
  "unreadableMetadataEnv =
     \<lparr> mintPubkey = Inr ''So11111111111111111111111111111111111111112'',
       tokenInfoResult = Inr \<lparr> ti_name = ''Unknown'', ti_symbol = ''Unknown'', ti_decimals = 6,
                              ti_supply = ''1000.000000'',
                              mintAddress = ''So11111111111111111111111111111111111111112'',
                              ti_image = None, ti_description = None \<rparr>,
       mint2022 = Inl (Error ''TokenInvalidAccountOwnerError''),
       mintLegacy = Inr \<lparr> mint_mintAuthority = Some ''Auth1111'', mint_freezeAuthority = None,
                         mint_supply = 1000000000, mint_decimals = 6 \<rparr>,
       metadataResult = Inl (Error ''AccountNotFoundError'') \<rparr>"

section \<open>developerTracker.ts: the deployer identifier and the deployment history scanner\<close>

definition PUMPFUN_PROGRAM_IDS :: "string list" where
  "PUMPFUN_PROGRAM_IDS =
     [''6EF8rrecthR5Dkzon8Nwu78hRvfCKubJ14M5uBEwF6P'',
      ''FoaFt2Dtz58RA6DPjbRb9t9z8sLJRChiGFTv21EfaseZ'']"

definition PUMPFUN_MINT_AUTHORITY :: string where
  "PUMPFUN_MINT_AUTHORITY = ''TSLvdd1pWpHVjahSpsvCXUbgwsL3JAcvokwaKt1eokM''"

datatype TokenStatus = Active | Rugged | Dead

text \<open>\<open>DeployedToken\<close>; its \<open>timestamp\<close> is named \<open>deployedAt\<close> here.\<close>

record DeployedToken =
  address :: string
  signature :: string
  deployedAt :: int
  isRugged :: bool
  liquidityValue :: int
  name :: "string option"
  symbol :: "string option"
  age :: "int option"
  status :: TokenStatus

subsection \<open>String.prototype.includes\<close>

fun startsWith :: "string \<Rightarrow> string \<Rightarrow> bool" where
  "startsWith s [] = True"
| "startsWith [] (c # cs) = False"
| "startsWith (x # xs) (c # cs) = (x = c \<and> startsWith xs cs)"

fun str_includes :: "string \<Rightarrow> string \<Rightarrow> bool" where
  "str_includes [] needle = (needle = [])"
| "str_includes (x # xs) needle = (startsWith (x # xs) needle \<or> str_includes xs needle)"

subsection \<open>retryWithBackoff of the Developer Tracker\<close>

text \<open>
  The wrapped call \<open>fn\<close> is effectful: \<open>fn i\<close> is the outcome of its invocation in
  iteration \<open>i\<close> of the loop. The result records the returned value or the thrown one,
  how often \<open>fn\<close> was invoked, and the delays slept, in order.
\<close>

record 'a RetryResult =
  outcome :: "thrown + 'a"
  attempts :: nat
  sleeps :: "real list"

text \<open>\<open>error?.message?.includes('429') || error?.message?.includes('Too Many Requests')\<close>\<close>

definition isRateLimitError :: "thrown \<Rightarrow> bool" where
  "isRateLimitError error =
     (case error of
        Error m \<Rightarrow> str_includes m ''429'' \<or> str_includes m ''Too Many Requests''
      | Undefined \<Rightarrow> False)"

function trackerRetryLoop ::
  "(nat \<Rightarrow> thrown + 'a) \<Rightarrow> nat \<Rightarrow> real \<Rightarrow> nat \<Rightarrow> thrown \<Rightarrow> real list \<Rightarrow> 'a RetryResult" where
  "trackerRetryLoop fn maxRetries initialDelay i lastError slept =
     (if i < maxRetries then
        (case fn i of
           Inr v \<Rightarrow> \<lparr> outcome = Inr v, attempts = Suc i, sleeps = slept \<rparr>
         | Inl error \<Rightarrow>
             (if isRateLimitError error
              then trackerRetryLoop fn maxRetries initialDelay (Suc i) error
                     (slept @ [initialDelay * 2 ^ i])
              else \<lparr> outcome = Inl error, attempts = Suc i, sleeps = slept \<rparr>))
      else \<lparr> outcome = Inl lastError, attempts = i, sleeps = slept \<rparr>)"
  by pat_completeness auto
termination
  by (relation "measure (\<lambda>(fn, maxRetries, initialDelay, i, lastError, slept). maxRetries - i)") auto

definition DeveloperTracker_retryWithBackoff ::
  "(nat \<Rightarrow> thrown + 'a) \<Rightarrow> nat \<Rightarrow> real \<Rightarrow> 'a RetryResult" where
  "DeveloperTracker_retryWithBackoff fn maxRetries initialDelay =
     trackerRetryLoop fn maxRetries initialDelay 0 Undefined []"

subsection \<open>new PublicKey\<close>

text \<open>
  The constructor of \<open>PublicKey\<close> in \<open>@solana/web3.js\<close> decodes its string argument
  as base58 and throws unless the decoded bytes are exactly 32: a character outside the
  alphabet makes the decoder throw, and the decoded bytes are one zero byte for each
  leading \<open>1\<close> followed by the bytes of the number that the digits denote. A key is kept
  as its base58 string.
\<close>

definition BASE58_ALPHABET :: string where
  "BASE58_ALPHABET = ''123456789ABCDEFGHJKLMNPQRSTUVWXYZabcdefghijkmnopqrstuvwxyz''"

fun indexOf :: "char \<Rightarrow> string \<Rightarrow> nat option" where
  "indexOf c [] = None"
| "indexOf c (x # xs) = (if c = x then Some 0 else map_option Suc (indexOf c xs))"

fun base58Digits :: "string \<Rightarrow> nat list option" where
  "base58Digits [] = Some []"
| "base58Digits (c # cs) =
     (case indexOf c BASE58_ALPHABET of
        None \<Rightarrow> None
      | Some d \<Rightarrow> map_option (Cons d) (base58Digits cs))"

fun byteLength :: "nat \<Rightarrow> nat" where
  "byteLength n = (if n = 0 then 0 else Suc (byteLength (n div 256)))"

definition decodedLength :: "string \<Rightarrow> nat list \<Rightarrow> nat" where
  "decodedLength value digits =
     length (takeWhile (\<lambda>c. c = CHR ''1'') value)
       + byteLength (foldl (\<lambda>n d. n * 58 + d) 0 digits)"

definition newPublicKey :: "string \<Rightarrow> thrown + string" where
  "newPublicKey value =
     (case base58Digits value of
        None \<Rightarrow> Inl (Error ''Non-base58 character'')
      | Some digits \<Rightarrow>
          if decodedLength value digits \<noteq> 32 then Inl (Error ''Invalid public key input'')
          else Inr value)"

subsection \<open>Double arithmetic\<close>

text \<open>
  \<open>checkTokensLiquidity\<close> computes the share of the largest holder in IEEE doubles:
  \<open>(Number(topHolderAmount) / Number(totalSupply)) * 100\<close>. A non-negative finite
  double is kept as a pair \<open>(m, e)\<close> that stands for \<open>m * 2 ^ e\<close>. Each of the three
  operations rounds its exact result to 53 significant bits, to the nearest, ties to
  the even one. The operands are token amounts below \<open>2 ^ 64\<close> and a supply that is
  not zero, so overflow, subnormal numbers and a zero divisor do not occur and are not
  modelled.
\<close>

type_synonym double = "nat \<times> int"

definition doubleValue :: "double \<Rightarrow> real" where
  "doubleValue x =
     (if snd x \<ge> 0 then real (fst x) * 2 ^ nat (snd x) else real (fst x) / 2 ^ nat (- snd x))"

fun bitLength :: "nat \<Rightarrow> nat" where
  "bitLength n = (if n = 0 then 0 else Suc (bitLength (n div 2)))"

text \<open>The integer nearest to \<open>n / d\<close>, ties to even.\<close>

definition roundHalfEven :: "nat \<Rightarrow> nat \<Rightarrow> nat" where
  "roundHalfEven n d =
     (let k = n div d; r = n mod d
      in if 2 * r < d then k
         else if 2 * r > d then k + 1
         else if even k then k else k + 1)"

text \<open>The integer part of the binary logarithm of \<open>p / q\<close>, for positive \<open>p\<close> and \<open>q\<close>.\<close>

definition floorLog2 :: "nat \<Rightarrow> nat \<Rightarrow> int" where
  "floorLog2 p q =
     (let d = int (bitLength p) - int (bitLength q)
      in if (if d \<ge> 0 then q * 2 ^ nat d \<le> p else q \<le> p * 2 ^ nat (- d)) then d else d - 1)"

text \<open>The double nearest to \<open>p / q\<close>.\<close>

definition roundToDouble :: "nat \<Rightarrow> nat \<Rightarrow> double" where
  "roundToDouble p q =
     (if p = 0 then (0, 0)
      else (let e = floorLog2 p q - 52
            in if e \<ge> 0 then (roundHalfEven p (q * 2 ^ nat e), e)
               else (roundHalfEven (p * 2 ^ nat (- e)) q, e)))"

text \<open>\<open>Number(..)\<close> of a \<open>bigint\<close> or of a string of decimal digits.\<close>

definition Number :: "nat \<Rightarrow> double" where
  "Number n = roundToDouble n 1"

definition divideDouble :: "double \<Rightarrow> double \<Rightarrow> double" where
  "divideDouble x y =
     (let quotient = roundToDouble (fst x) (fst y)
      in (fst quotient, snd quotient + snd x - snd y))"

definition timesDouble :: "double \<Rightarrow> nat \<Rightarrow> double" where
  "timesDouble x k =
     (let product = roundToDouble (fst x * k) 1
      in (fst product, snd product + snd x))"

definition topHolderPercentage :: "nat \<Rightarrow> nat \<Rightarrow> real" where
  "topHolderPercentage topHolderAmount totalSupply =
     doubleValue (timesDouble (divideDouble (Number topHolderAmount) (Number totalSupply)) 100)"

subsection \<open>checkTokensLiquidity\<close>

text \<open>
  One run of the closure passed to \<open>retryWithBackoff\<close> builds the public key of the
  token's address, reads the mint (with the fallback) and, past the two early returns,
  the largest token accounts, of which only \<open>value.length\<close> and
  \<open>value[0].amount\<close> are used: the list holds the amounts. The closure writes to
  \<open>token\<close> only directly before it returns, so a run that throws leaves the token as
  it was: a run is the thrown value or the updated token. The \<open>sleep\<close> calls inside
  the closure are left out.
\<close>

record LiquidityFetch =
  lf_mint2022 :: "thrown + Mint"
  lf_mintLegacy :: "thrown + Mint"
  largestAccounts :: "thrown + nat list"

definition markRugged :: "DeployedToken \<Rightarrow> DeployedToken" where
  "markRugged token = token\<lparr> isRugged := True, liquidityValue := 0, status := Rugged \<rparr>"

definition liquidityCheckAttempt :: "DeployedToken \<Rightarrow> LiquidityFetch \<Rightarrow> thrown + DeployedToken" where
  "liquidityCheckAttempt token f =
     (case newPublicKey (address token) of
        Inl e \<Rightarrow> Inl e
      | Inr tokenKey \<Rightarrow>
     (case getMintWithFallback (lf_mint2022 f) (lf_mintLegacy f) of
        Inl e \<Rightarrow> Inl e
      | Inr mintInfo \<Rightarrow>
          (if mint_mintAuthority mintInfo \<noteq> None
                \<and> mint_mintAuthority mintInfo \<noteq> Some PUMPFUN_MINT_AUTHORITY
           then Inr (markRugged token)
           else if mint_supply mintInfo = 0 then Inr (markRugged token)
           else (case largestAccounts f of
                   Inl e \<Rightarrow> Inl e
                 | Inr [] \<Rightarrow> Inr (markRugged token)
                 | Inr (topHolderAmount # others) \<Rightarrow>
                     (if topHolderPercentage topHolderAmount (mint_supply mintInfo) > 95
                        then Inr (markRugged token)
                      else if topHolderPercentage topHolderAmount (mint_supply mintInfo) > 80
                        then Inr (token\<lparr> status := Dead, liquidityValue := 1 \<rparr>)
                      else Inr (token\<lparr> status := Active, liquidityValue := 10 \<rparr>))))))"

text \<open>
  The gateway of the scanner: what the reads of run \<open>i\<close> for the token at an address
  return. The body of the \<open>for\<close> loop of \<open>checkTokensLiquidity\<close> is
  \<open>checkTokenLiquidity\<close>; the loop touches each token once, in order.
\<close>

type_synonym LiquidityGateway = "string \<Rightarrow> nat \<Rightarrow> LiquidityFetch"

definition liquidityCheck :: "LiquidityGateway \<Rightarrow> DeployedToken \<Rightarrow> DeployedToken RetryResult" where
  "liquidityCheck gw token =
     DeveloperTracker_retryWithBackoff
       (\<lambda>i. liquidityCheckAttempt token (gw (address token) i)) 3 1000"

definition checkTokenLiquidity :: "LiquidityGateway \<Rightarrow> DeployedToken \<Rightarrow> DeployedToken" where
  "checkTokenLiquidity gw token =
     (case outcome (liquidityCheck gw token) of
        Inr checked \<Rightarrow> checked
      | Inl e \<Rightarrow> token\<lparr> status := Dead, liquidityValue := 0 \<rparr>)"

definition checkTokensLiquidity :: "LiquidityGateway \<Rightarrow> DeployedToken list \<Rightarrow> DeployedToken list" where
  "checkTokensLiquidity gw tokens = map (checkTokenLiquidity gw) tokens"

text \<open>
  The object that \<open>analyzeTransactionForTokenCreation\<close> returns for a discovered mint
  (both of its \<open>return\<close> statements build the same one).
\<close>

definition discoveredToken ::
  "string \<Rightarrow> string \<Rightarrow> int \<Rightarrow> string option \<Rightarrow> string option \<Rightarrow> int \<Rightarrow> DeployedToken" where
  "discoveredToken mintAddr txSignature txTime tokenName tokenSymbol days =
     \<lparr> address = mintAddr, signature = txSignature, deployedAt = txTime, isRugged = False,
       liquidityValue = 0, name = tokenName, symbol = tokenSymbol, age = Some days,
       status = Active \<rparr>"

text \<open>Step 3 of \<open>analyzeDeployer\<close>: \<open>ruggedCount\<close> and \<open>winRate\<close>.\<close>

definition ruggedCount :: "DeployedToken list \<Rightarrow> nat" where
  "ruggedCount tokensDeployed =
     length (filter (\<lambda>t. isRugged t \<or> status t = Rugged) tokensDeployed)"

definition winRate :: "DeployedToken list \<Rightarrow> real" where
  "winRate tokensDeployed =
     (if length tokensDeployed > 0
      then ((real (length tokensDeployed) - real (ruggedCount tokensDeployed))
              / real (length tokensDeployed)) * 100
      else 100)"

text \<open>
  The \<open>winRate\<close> that \<open>analyzeDeployer\<close> returns is rounded to two decimals:
  \<open>Math.round(winRate * 100) / 100\<close>; \<open>Math.round\<close> rounds halves up.
\<close>

definition Math_round :: "real \<Rightarrow> int" where
  "Math_round x = \<lfloor>x + 1 / 2\<rfloor>"

definition reportedWinRate :: "DeployedToken list \<Rightarrow> real" where
  "reportedWinRate tokensDeployed = real_of_int (Math_round (winRate tokensDeployed * 100)) / 100"

subsection \<open>findDeployer\<close>

text \<open>
  A parsed transaction is reduced to what \<open>findDeployer\<close> reads: the program id of
  each instruction and the account keys. \<open>None\<close> for the transaction stands for
  \<open>!tx || !tx.transaction\<close>. The gateway gives the outcome of each call.
\<close>

record AccountKey =
  pubkey :: string
  signer :: bool
  writable :: bool

record ParsedTransaction =
  instructionProgramIds :: "string list"
  accountKeys :: "AccountKey list"

record SignatureInfo =
  sig_signature :: string
  blockTime :: "int option"

record DeployerGateway =
  dg_mint2022 :: "thrown + Mint"
  dg_mintLegacy :: "thrown + Mint"
  signaturesForAddress :: "thrown + SignatureInfo list"
  parsedTransaction :: "string \<Rightarrow> thrown + ParsedTransaction option"
  pumpfunCreatorFromAPI :: "thrown + string option"

text \<open>Method 1: the mint authority, unless it is the one of Pump.fun.\<close>

definition mintAuthorityDeployer :: "DeployerGateway \<Rightarrow> string option" where
  "mintAuthorityDeployer gw =
     (case getMintWithFallback (dg_mint2022 gw) (dg_mintLegacy gw) of
        Inl e \<Rightarrow> None
      | Inr mintInfo \<Rightarrow>
          (case mint_mintAuthority mintInfo of
             None \<Rightarrow> None
           | Some a \<Rightarrow> if a \<noteq> PUMPFUN_MINT_AUTHORITY then Some a else None))"

definition isPumpfunCreation :: "ParsedTransaction \<Rightarrow> bool" where
  "isPumpfunCreation tx =
     list_ex (\<lambda>programId. list_ex (\<lambda>pumpfunProgramId. programId = pumpfunProgramId)
                PUMPFUN_PROGRAM_IDS)
       (instructionProgramIds tx)"

text \<open>
  The Pump.fun branch: the creator from the API when it is a non-empty string (the
  \<open>if (apiCreator)\<close> test), else the first signer. \<open>None\<close> when the branch falls
  through to the fee payer.
\<close>

definition pumpfunCreator :: "DeployerGateway \<Rightarrow> ParsedTransaction \<Rightarrow> string option" where
  "pumpfunCreator gw tx =
     (let firstSigner = map_option pubkey (find signer (accountKeys tx))
      in case pumpfunCreatorFromAPI gw of
           Inr (Some apiCreator) \<Rightarrow> if apiCreator \<noteq> [] then Some apiCreator else firstSigner
         | Inr None \<Rightarrow> firstSigner
         | Inl e \<Rightarrow> firstSigner)"

text \<open>\<open>accountKeys[0].pubkey\<close> on an empty array is a \<open>TypeError\<close>, caught by the outer \<open>try\<close>.\<close>

definition feePayer :: "ParsedTransaction \<Rightarrow> string option" where
  "feePayer tx = (case accountKeys tx of [] \<Rightarrow> None | account # _ \<Rightarrow> Some (pubkey account))"

definition creationTransactionDeployer :: "DeployerGateway \<Rightarrow> ParsedTransaction \<Rightarrow> string option" where
  "creationTransactionDeployer gw tx =
     (case (if isPumpfunCreation tx then pumpfunCreator gw tx else None) of
        Some creator \<Rightarrow> Some creator
      | None \<Rightarrow> feePayer tx)"

definition findDeployer :: "DeployerGateway \<Rightarrow> string option" where
  "findDeployer gw =
     (case mintAuthorityDeployer gw of
        Some a \<Rightarrow> Some a
      | None \<Rightarrow>
          (case signaturesForAddress gw of
             Inl e \<Rightarrow> None
           | Inr signatures \<Rightarrow>
               (if signatures = [] then None
                else (case parsedTransaction gw (sig_signature (last signatures)) of
                        Inl e \<Rightarrow> None
                      | Inr None \<Rightarrow> None
                      | Inr (Some tx) \<Rightarrow> creationTransactionDeployer gw tx))))"

section \<open>Holder cluster analysis\<close>

text \<open>
  The known-entity allowlists. The source holds them in a \<open>Set\<close> and only tests
  membership.
\<close>

definition CEX_WALLETS :: "string list" where
  "CEX_WALLETS =
     [''5tzFkiKscXHK5ZXCGbXZxdw7gTjjD1mBwuoFbhUvuAi9'',
      ''CuieVDEDtLo7FypA9SbLM9saXFdb1dsshEkyErMqkRQq'',
      ''3kvrNEkLiVZAh9u5URgdvMGqKZN7zMJj1D9bKrRMfT1Z'',
      ''2AQdpHJ2JpcEgPiATUXjQxA8QmafFegfQwSLWSprPicm'',
      ''GJRs4FwHtemZ5ZE9x3FNvJ8TMwitKTh21yxdRPqn7npE'',
      ''H8sMJSCQxfKiFTCfDR3DUMLPwcRbM61LGFJ8N4dK3WjS'',
      ''AC5RDfQFmDS1deWZos921JfqscXdByf8BKHs5ACWjtW2'']"

definition MIXER_WALLETS :: "string list" where
  "MIXER_WALLETS = []"

definition isCEXWallet :: "string \<Rightarrow> bool" where
  "isCEXWallet a = (a \<in> set CEX_WALLETS)"

definition isMixerWallet :: "string \<Rightarrow> bool" where
  "isMixerWallet a = (a \<in> set MIXER_WALLETS)"

text \<open>
  \<open>HolderInfo\<close>, \<open>FundingSource\<close> and \<open>ClusterInfo\<close>. The fields \<open>address\<close>,
  \<open>balance\<close> and \<open>rank\<close> carry the prefix \<open>h_\<close> in a holder and \<open>ch_\<close> in a member
  of a cluster; those of a funding source carry \<open>fs_\<close>. A \<open>bigint\<close> is an \<open>int\<close>, a
  percentage a real number (finite: no \<open>NaN\<close>).
\<close>

record HolderInfo =
  h_address :: string
  h_balance :: int
  percentageOfSupply :: real
  h_rank :: nat

record FundingSource =
  fs_funder :: string
  fs_signature :: string
  fs_timestamp :: int
  fs_amount :: real
  fs_isCEX :: bool
  fs_isMixer :: bool

record ClusterHolder =
  ch_address :: string
  ch_balance :: int
  percentage :: real
  ch_rank :: nat
  fundingSignature :: string

record ClusterInfo =
  funder :: string
  holders :: "ClusterHolder list"
  totalBalance :: int
  totalPercentage :: real
  holderCount :: nat
  isCEX :: bool
  isMixer :: bool

subsection \<open>retryWithBackoff of the cluster analysis\<close>

text \<open>\<open>error.message?.includes('timeout') || error.message?.includes('ETIMEDOUT')\<close>\<close>

definition isTimeoutError :: "thrown \<Rightarrow> bool" where
  "isTimeoutError error =
     (case error of
        Error m \<Rightarrow> str_includes m ''timeout'' \<or> str_includes m ''ETIMEDOUT''
      | Undefined \<Rightarrow> False)"

text \<open>
  \<open>random i\<close> is what \<open>Math.random()\<close> returns in iteration \<open>i\<close>. This helper reads
  \<open>error.message\<close> without \<open>?.\<close>, so a thrown \<open>undefined\<close> makes the handler itself
  throw a \<open>TypeError\<close>.
\<close>

function retryLoop ::
  "(nat \<Rightarrow> thrown + 'a) \<Rightarrow> nat \<Rightarrow> real \<Rightarrow> (nat \<Rightarrow> real) \<Rightarrow> nat \<Rightarrow> thrown \<Rightarrow> real list
     \<Rightarrow> 'a RetryResult" where
  "retryLoop fn maxRetries baseDelay random i lastError slept =
     (if i < maxRetries then
        (case fn i of
           Inr v \<Rightarrow> \<lparr> outcome = Inr v, attempts = Suc i, sleeps = slept \<rparr>
         | Inl Undefined \<Rightarrow>
             \<lparr> outcome = Inl (Error ''TypeError: Cannot read properties of undefined''),
               attempts = Suc i, sleeps = slept \<rparr>
         | Inl (Error m) \<Rightarrow>
             (if isRateLimitError (Error m)
              then retryLoop fn maxRetries baseDelay random (Suc i) (Error m)
                     (slept @ [baseDelay * 2 ^ i + random i * 1000])
              else if isTimeoutError (Error m)
              then retryLoop fn maxRetries baseDelay random (Suc i) (Error m)
                     (slept @ [baseDelay * 2 ^ i])
              else \<lparr> outcome = Inl (Error m), attempts = Suc i, sleeps = slept \<rparr>))
      else \<lparr> outcome = Inl lastError, attempts = i, sleeps = slept \<rparr>)"
  by pat_completeness auto
termination
  by (relation "measure (\<lambda>(fn, maxRetries, baseDelay, random, i, lastError, slept). maxRetries - i)")
     auto

definition retryWithBackoff ::
  "(nat \<Rightarrow> thrown + 'a) \<Rightarrow> nat \<Rightarrow> real \<Rightarrow> (nat \<Rightarrow> real) \<Rightarrow> 'a RetryResult" where
  "retryWithBackoff fn maxRetries baseDelay random =
     retryLoop fn maxRetries baseDelay random 0 Undefined []"

subsection \<open>findFundingSource, its last step\<close>

text \<open>
  The only place that builds a \<open>FundingSource\<close>: once the funder is known, the two flags
  are read off the allowlists. \<open>oldestSig.blockTime || 0\<close> is the timestamp.
\<close>

definition fundingSourceOf :: "string \<Rightarrow> string \<Rightarrow> int option \<Rightarrow> real \<Rightarrow> FundingSource" where
  "fundingSourceOf funderAddr oldestSignature oldestBlockTime fundAmount =
     \<lparr> fs_funder = funderAddr, fs_signature = oldestSignature,
       fs_timestamp = (case oldestBlockTime of Some t \<Rightarrow> t | None \<Rightarrow> 0),
       fs_amount = fundAmount,
       fs_isCEX = isCEXWallet funderAddr, fs_isMixer = isMixerWallet funderAddr \<rparr>"

subsection \<open>groupHoldersByFunder\<close>

text \<open>
  The \<open>Map\<close> of clusters is an association list in insertion order: \<open>has\<close> is
  \<open>map_of\<close>, \<open>set\<close> of a new key appends, and the in-place update of the object that
  \<open>get\<close> returns is \<open>updateCluster\<close>. \<open>fundingSources\<close> is a map from holder
  addresses. \<open>Array.prototype.sort\<close> is stable, and sorting by \<open>b - a\<close> is sorting by
  the negated percentage.
\<close>

type_synonym ClusterMap = "(string \<times> ClusterInfo) list"

fun updateCluster :: "string \<Rightarrow> (ClusterInfo \<Rightarrow> ClusterInfo) \<Rightarrow> ClusterMap \<Rightarrow> ClusterMap" where
  "updateCluster k f [] = []"
| "updateCluster k f ((k', c) # rest) =
     (if k' = k then (k', f c) # rest else (k', c) # updateCluster k f rest)"

definition emptyCluster :: "FundingSource \<Rightarrow> ClusterInfo" where
  "emptyCluster funding =
     \<lparr> funder = fs_funder funding, holders = [], totalBalance = 0, totalPercentage = 0,
       holderCount = 0, isCEX = fs_isCEX funding, isMixer = fs_isMixer funding \<rparr>"

definition clusterHolder :: "HolderInfo \<Rightarrow> FundingSource \<Rightarrow> ClusterHolder" where
  "clusterHolder holder funding =
     \<lparr> ch_address = h_address holder, ch_balance = h_balance holder,
       percentage = percentageOfSupply holder, ch_rank = h_rank holder,
       fundingSignature = fs_signature funding \<rparr>"

definition addHolder :: "HolderInfo \<Rightarrow> FundingSource \<Rightarrow> ClusterInfo \<Rightarrow> ClusterInfo" where
  "addHolder holder funding cl =
     cl\<lparr> holders := holders cl @ [clusterHolder holder funding],
         totalBalance := totalBalance cl + h_balance holder,
         totalPercentage := totalPercentage cl + percentageOfSupply holder,
         holderCount := holderCount cl + 1 \<rparr>"

definition groupStep :: "(string \<rightharpoonup> FundingSource) \<Rightarrow> ClusterMap \<Rightarrow> HolderInfo \<Rightarrow> ClusterMap" where
  "groupStep fundingSources clusters holder =
     (case fundingSources (h_address holder) of
        None \<Rightarrow> clusters
      | Some funding \<Rightarrow>
          updateCluster (fs_funder funding) (addHolder holder funding)
            (if map_of clusters (fs_funder funding) = None
             then clusters @ [(fs_funder funding, emptyCluster funding)]
             else clusters))"

definition groupHoldersByFunder ::
  "HolderInfo list \<Rightarrow> (string \<rightharpoonup> FundingSource) \<Rightarrow> int \<Rightarrow> ClusterInfo list" where
  "groupHoldersByFunder hs fundingSources totalSupply =
     sort_key (\<lambda>c. - totalPercentage c) (map snd (foldl (groupStep fundingSources) [] hs))"

subsection \<open>identifySuspiciousClusters and calculateRiskLevel\<close>

definition identifySuspiciousClusters :: "ClusterInfo list \<Rightarrow> ClusterInfo list" where
  "identifySuspiciousClusters clusters =
     filter (\<lambda>cl. holderCount cl \<ge> 2 \<and> \<not> isCEX cl \<and> \<not> isMixer cl \<and> totalPercentage cl \<ge> 5)
       clusters"

datatype ClusterRiskLevel = Low | Medium | High | Critical

definition calculateRiskLevel :: "ClusterInfo list \<Rightarrow> real \<Rightarrow> ClusterRiskLevel" where
  "calculateRiskLevel suspiciousClusters totalPct =
     (case suspiciousClusters of
        [] \<Rightarrow> Low
      | largestCluster # _ \<Rightarrow>
          (if totalPercentage largestCluster > 30 then Critical
           else if totalPercentage largestCluster > 20 then High
           else if totalPercentage largestCluster > 10 then Medium
           else Low))"

subsection \<open>Notions used to state the properties\<close>

text \<open>The members of a cluster, by address.\<close>

definition memberAddresses :: "ClusterInfo \<Rightarrow> string set" where
  "memberAddresses cl = set (map ch_address (holders cl))"

text \<open>The holders that the funding map sends to a given funder, as members, in order.\<close>

definition membersFundedBy ::
  "(string \<rightharpoonup> FundingSource) \<Rightarrow> string \<Rightarrow> HolderInfo list \<Rightarrow> ClusterHolder list" where
  "membersFundedBy fundingSources k hs =
     List.map_filter
       (\<lambda>h. case fundingSources (h_address h) of
               None \<Rightarrow> None
             | Some funding \<Rightarrow> if fs_funder funding = k then Some (clusterHolder h funding) else None)
       hs"

text \<open>The flags of a cluster agree with the allowlists.\<close>

definition flagsFromAllowlists :: "ClusterInfo \<Rightarrow> bool" where
  "flagsFromAllowlists cl =
     (isCEX cl = isCEXWallet (funder cl) \<and> isMixer cl = isMixerWallet (funder cl))"

text \<open>The order of the risk levels: Low, Medium, High, Critical.\<close>

fun levelRank :: "ClusterRiskLevel \<Rightarrow> nat" where
  "levelRank Low = 0"
| "levelRank Medium = 1"
| "levelRank High = 2"
| "levelRank Critical = 3"

definition descendingByPercentage :: "ClusterInfo list \<Rightarrow> bool" where
  "descendingByPercentage cs = sorted_wrt (\<lambda>a b. totalPercentage b \<le> totalPercentage a) cs"

definition largestPercentage :: "ClusterInfo list \<Rightarrow> real" where
  "largestPercentage cs = Max (set (map totalPercentage cs))"

section \<open>holderDistribution.ts: the Gini coefficient\<close>

text \<open>
  A JavaScript number is a real number or one of the three special values; rounding is
  not modelled. The balances passed in are finite. The divisor \<open>n * cumulativeWealth\<close>
  is never the negative zero (the sum starts from \<open>+0\<close>), so a division by zero gives
  \<open>NaN\<close> for \<open>0 / 0\<close> and the infinity of the sign of the dividend otherwise.
\<close>

datatype number = Finite real | PosInfinity | NegInfinity | NaN

definition divide_js :: "real \<Rightarrow> real \<Rightarrow> number" where
  "divide_js a b =
     (if b \<noteq> 0 then Finite (a / b)
      else if a = 0 then NaN
      else if a > 0 then PosInfinity
      else NegInfinity)"

fun Math_min :: "real \<Rightarrow> number \<Rightarrow> number" where
  "Math_min a (Finite b) = Finite (min a b)"
| "Math_min a PosInfinity = Finite a"
| "Math_min a NegInfinity = NegInfinity"
| "Math_min a NaN = NaN"

fun Math_max :: "real \<Rightarrow> number \<Rightarrow> number" where
  "Math_max a (Finite b) = Finite (max a b)"
| "Math_max a PosInfinity = PosInfinity"
| "Math_max a NegInfinity = Finite a"
| "Math_max a NaN = NaN"

text \<open>
  The \<open>for\<close> loop over the sorted balances: \<open>i\<close> is the index of the head of the
  remaining list, the pair is \<open>(cumulativeWealth, giniSum)\<close>.
\<close>

fun giniLoop :: "real list \<Rightarrow> nat \<Rightarrow> nat \<Rightarrow> real \<times> real \<Rightarrow> real \<times> real" where
  "giniLoop [] i n acc = acc"
| "giniLoop (x # rest) i n (cumulativeWealth, giniSum) =
     giniLoop rest (Suc i) n
       (cumulativeWealth + x, giniSum + (2 * (real i + 1) - real n - 1) * x)"

definition calculateGiniCoefficient :: "real list \<Rightarrow> number" where
  "calculateGiniCoefficient balances =
     (if balances = [] then Finite 0
      else (let sorted = sort balances;
                n = length sorted;
                (cumulativeWealth, giniSum) = giniLoop sorted 0 n (0, 0);
                gini = divide_js giniSum (real n * cumulativeWealth)
            in Math_max 0 (Math_min 1 gini)))"

section \<open>Notions used to state the retry policy\<close>

text \<open>
  Invocation \<open>j\<close> of the wrapped call fails with an error that the helper retries.
  The Developer Tracker's helper retries rate-limit errors only; the helper of the
  cluster analysis retries rate-limit and timeout errors.
\<close>

definition retriedByTracker :: "thrown \<Rightarrow> bool" where
  "retriedByTracker e = isRateLimitError e"

definition retriedByCluster :: "thrown \<Rightarrow> bool" where
  "retriedByCluster e = (isRateLimitError e \<or> isTimeoutError e)"

definition failsRetryably :: "(thrown \<Rightarrow> bool) \<Rightarrow> (nat \<Rightarrow> thrown + 'a) \<Rightarrow> nat \<Rightarrow> bool" where
  "failsRetryably retried fn j = (case fn j of Inl e \<Rightarrow> retried e | Inr v \<Rightarrow> False)"

text \<open>
  The delay that the cluster analysis' helper sleeps after a failed invocation \<open>j\<close>:
  exponential in \<open>j\<close>, with up to a second of jitter after a rate-limit error.
\<close>

definition clusterDelay :: "real \<Rightarrow> (nat \<Rightarrow> real) \<Rightarrow> (nat \<Rightarrow> thrown + 'a) \<Rightarrow> nat \<Rightarrow> real" where
  "clusterDelay baseDelay random fn j =
     baseDelay * 2 ^ j
       + (case fn j of Inl e \<Rightarrow> if isRateLimitError e then random j * 1000 else 0 | Inr v \<Rightarrow> 0)"

section \<open>Notions used to state the properties of the scanner\<close>

text \<open>The lifecycle check of a token failed: the retry helper ended with a throw.\<close>

definition checkFailed :: "LiquidityGateway \<Rightarrow> DeployedToken \<Rightarrow> bool" where
  "checkFailed gw token = isl (outcome (liquidityCheck gw token))"

text \<open>Every run of the lifecycle check before run \<open>k\<close> ended in a rate-limit error.\<close>

definition rateLimitedBefore :: "LiquidityGateway \<Rightarrow> DeployedToken \<Rightarrow> nat \<Rightarrow> bool" where
  "rateLimitedBefore gw token k =
     list_all (failsRetryably retriedByTracker
                 (\<lambda>i. liquidityCheckAttempt token (gw (address token) i))) [0..<k]"

text \<open>The mint authority is still active and is not the shared one of Pump.fun.\<close>

definition ownAuthorityActive :: "Mint \<Rightarrow> bool" where
  "ownAuthorityActive mintInfo =
     (mint_mintAuthority mintInfo \<noteq> None
      \<and> mint_mintAuthority mintInfo \<noteq> Some PUMPFUN_MINT_AUTHORITY)"

section \<open>Concrete inputs\<close>

text \<open>A call that is rate limited twice and then succeeds, and one that always times out.\<close>

definition rateLimitedTwice :: "nat \<Rightarrow> thrown + nat" where
  "rateLimitedTwice i = (if i < 2 then Inl (Error ''429 Too Many Requests'') else Inr 7)"

definition alwaysTimeout :: "nat \<Rightarrow> thrown + nat" where
  "alwaysTimeout i = Inl (Error ''connect ETIMEDOUT'')"

definition halfJitter :: "nat \<Rightarrow> real" where
  "halfJitter i = 1 / 2"

text \<open>
  A discovered token (the address is that of a mint on chain), and four gateways of the
  scanner: one whose mint has supply but whose list of largest accounts is empty, one
  that is rate limited once and then shows a largest holder with 90 percent, one whose
  largest holder has a hair more than 95 percent of a large supply, and one that is
  rate limited on every read.
\<close>

definition sampleToken :: DeployedToken where
  "sampleToken = discoveredToken ''So11111111111111111111111111111111111111112'' ''sig1''
       1700000000 None None 3"

definition revokedMint :: Mint where
  "revokedMint = \<lparr> mint_mintAuthority = None, mint_freezeAuthority = None,
                   mint_supply = 1000, mint_decimals = 6 \<rparr>"

definition emptyHoldersGateway :: LiquidityGateway where
  "emptyHoldersGateway addr i =
     \<lparr> lf_mint2022 = Inr revokedMint, lf_mintLegacy = Inl (Error ''not called''),
       largestAccounts = Inr [] \<rparr>"

definition concentratedGateway :: LiquidityGateway where
  "concentratedGateway addr i =
     (if i = 0
      then \<lparr> lf_mint2022 = Inl (Error ''429 Too Many Requests''),
             lf_mintLegacy = Inl (Error ''429 Too Many Requests''),
             largestAccounts = Inl (Error ''429 Too Many Requests'') \<rparr>
      else \<lparr> lf_mint2022 = Inl (Error ''TokenInvalidAccountOwnerError''),
             lf_mintLegacy = Inr revokedMint,
             largestAccounts = Inr [900, 60, 40] \<rparr>)"

definition roundingGateway :: LiquidityGateway where
  "roundingGateway addr i =
     \<lparr> lf_mint2022 = Inr (revokedMint\<lparr> mint_supply := 10000000000000000000 \<rparr>),
       lf_mintLegacy = Inl (Error ''not called''),
       largestAccounts = Inr [9500000000000000001] \<rparr>"

definition rateLimitedGateway :: LiquidityGateway where
  "rateLimitedGateway addr i =
     \<lparr> lf_mint2022 = Inl (Error ''429 Too Many Requests''),
       lf_mintLegacy = Inl (Error ''429 Too Many Requests''),
       largestAccounts = Inl (Error ''429 Too Many Requests'') \<rparr>"

text \<open>
  Two gateways of the deployer identifier: a mint with revoked authority whose oldest
  signature names a transaction that the node no longer returns, and a Pump.fun mint
  whose creation transaction is found while the creator API is down.
\<close>

definition prunedTransactionGateway :: DeployerGateway where
  "prunedTransactionGateway =
     \<lparr> dg_mint2022 = Inr revokedMint, dg_mintLegacy = Inl (Error ''not called''),
       signaturesForAddress = Inr [\<lparr> sig_signature = ''sig1'', blockTime = Some 1700000000 \<rparr>],
       parsedTransaction = (\<lambda>s. Inr None),
       pumpfunCreatorFromAPI = Inr None \<rparr>"

definition pumpfunCreationTx :: ParsedTransaction where
  "pumpfunCreationTx =
     \<lparr> instructionProgramIds = [''ComputeBudget111111111111111111111111111111'',
                                 ''6EF8rrecthR5Dkzon8Nwu78hRvfCKubJ14M5uBEwF6P''],
       accountKeys = [\<lparr> pubkey = ''Creator1'', signer = True, writable = True \<rparr>,
                      \<lparr> pubkey = ''Mint1'', signer = True, writable = True \<rparr>] \<rparr>"

definition pumpfunGateway :: DeployerGateway where
  "pumpfunGateway =
     \<lparr> dg_mint2022 = Inr (revokedMint\<lparr> mint_mintAuthority := Some PUMPFUN_MINT_AUTHORITY \<rparr>),
       dg_mintLegacy = Inl (Error ''not called''),
       signaturesForAddress = Inr [\<lparr> sig_signature = ''sig2'', blockTime = Some 1700000100 \<rparr>,
                                   \<lparr> sig_signature = ''sig1'', blockTime = Some 1700000000 \<rparr>],
       parsedTransaction = (\<lambda>s. if s = ''sig1'' then Inr (Some pumpfunCreationTx) else Inr None),
       pumpfunCreatorFromAPI = Inl (Error ''fetch failed'') \<rparr>"

text \<open>
  Four holders: the first two and the fourth have a resolved funding source, the first
  two share their funder, the third has none.
\<close>

definition sampleHolders :: "HolderInfo list" where
  "sampleHolders =
     [\<lparr> h_address = ''HolderA'', h_balance = 400, percentageOfSupply = 40, h_rank = 1 \<rparr>,
      \<lparr> h_address = ''HolderB'', h_balance = 300, percentageOfSupply = 30, h_rank = 2 \<rparr>,
      \<lparr> h_address = ''HolderC'', h_balance = 200, percentageOfSupply = 20, h_rank = 3 \<rparr>,
      \<lparr> h_address = ''HolderD'', h_balance = 100, percentageOfSupply = 10, h_rank = 4 \<rparr>]"

definition sampleFunding :: "string \<rightharpoonup> FundingSource" where
  "sampleFunding =
     [''HolderA'' \<mapsto> fundingSourceOf ''Funder1'' ''fsigA'' (Some 1700000000) 2,
      ''HolderB'' \<mapsto> fundingSourceOf ''Funder1'' ''fsigB'' (Some 1700000050) 1,
      ''HolderD'' \<mapsto> fundingSourceOf ''5tzFkiKscXHK5ZXCGbXZxdw7gTjjD1mBwuoFbhUvuAi9'' ''fsigD'' None 5]"

text \<open>Two clusters with flags that agree with the allowlists, and two lists in descending order.\<close>

definition sybilCluster :: ClusterInfo where
  "sybilCluster =
     \<lparr> funder = ''Funder1'', holders = [], totalBalance = 700, totalPercentage = 35,
       holderCount = 2, isCEX = False, isMixer = False \<rparr>"

definition exchangeCluster :: ClusterInfo where
  "exchangeCluster =
     \<lparr> funder = ''5tzFkiKscXHK5ZXCGbXZxdw7gTjjD1mBwuoFbhUvuAi9'', holders = [],
       totalBalance = 100, totalPercentage = 10, holderCount = 3, isCEX = True, isMixer = False \<rparr>"

definition smallCluster :: ClusterInfo where
  "smallCluster = sybilCluster\<lparr> funder := ''Funder2'', totalPercentage := 12 \<rparr>"

text \<open>A call that is rate limited every time.\<close>

definition alwaysRateLimited :: "nat \<Rightarrow> thrown + nat" where
  "alwaysRateLimited i = Inl (Error ''429 Too Many Requests'')"

section \<open>Properties of the risk aggregator\<close>

lemma checkMintAuthority_fst:
  "fst (checkMintAuthority a sw) = fst sw - (if isActive (mintAuthority a) then 50 else 0)"
  by (simp add: checkMintAuthority_def penalty_mintAuthorityActive_def)

lemma checkFreezeAuthority_fst:
  "fst (checkFreezeAuthority a sw) = fst sw - (if isActive (freezeAuthority a) then 20 else 0)"
  by (simp add: checkFreezeAuthority_def penalty_freezeAuthorityActive_def)

lemma checkMetadataMutability_fst:
  "fst (checkMetadataMutability m sw) = fst sw - (if isMutable m then 10 else 0)"
  by (simp add: checkMetadataMutability_def penalty_metadataMutable_def)

lemma checkLiquidity_fst_le: "fst (checkLiquidity l sw) \<le> fst sw"
  by (simp add: checkLiquidity_def split: option.split)

lemma score_calculateRiskScore:
  "score (calculateRiskScore a m l) =
     max 0 (fst (checkLiquidity l
       (checkMetadataMutability m (checkFreezeAuthority a (checkMintAuthority a (100, []))))))"
  by (simp add: calculateRiskScore_def Let_def initialScore_def)

text \<open>
  C2. For every authority status, metadata status and optional liquidity signal the
  score returned by \<open>calculateRiskScore\<close> is at least 0 and at most 100: the baseline is
  100, every check only subtracts, and the result is floored at 0.
\<close>

theorem calculateRiskScore_bounds:
  "0 \<le> score (calculateRiskScore a m l) \<and> score (calculateRiskScore a m l) \<le> 100"
proof -
  let ?s3 = "checkMetadataMutability m (checkFreezeAuthority a (checkMintAuthority a (100, [])))"
  have "fst (checkLiquidity l ?s3) \<le> fst ?s3"
    by (rule checkLiquidity_fst_le)
  also have "fst ?s3 \<le> 100"
    by (simp add: checkMetadataMutability_fst checkFreezeAuthority_fst checkMintAuthority_fst)
  finally show ?thesis
    by (simp add: score_calculateRiskScore)
qed

lemma checkLiquidity_None: "checkLiquidity None sw = sw"
  by (simp add: checkLiquidity_def)

lemma checkMetadataMutability_immutable:
  "\<not> isMutable m \<Longrightarrow>
     checkMetadataMutability m (s, w) =
       (s, w @ [''SAFE: Metadata is immutable - Token identity is locked''])"
  by (simp add: checkMetadataMutability_def)

text \<open>
  C9. When the Metaplex metadata of a mint cannot be fetched, \<open>checkMetadata\<close> returns
  \<open>{isMutable: false, updateAuthority: null}\<close> and does not throw; the metadata check
  of \<open>calculateRiskScore\<close> then leaves the score as it is and records the token as
  immutable, and an audit whose address, token info and authorities resolve completes
  with the score 100 minus the two authority penalties only.
\<close>

theorem checkMetadata_unreadable_is_immutable:
  assumes "metadataResult env = Inl e"
    and "mintPubkey env = Inr pk"
    and "tokenInfoResult env = Inr ti"
    and "getMintWithFallback (mint2022 env) (mintLegacy env) = Inr mi"
  shows "checkMetadata (metadataResult env) =
           \<lparr> isMutable = False, updateAuthority = None, uri = None \<rparr>
       \<and> checkMetadataMutability (checkMetadata (metadataResult env)) (s, w) =
           (s, w @ [''SAFE: Metadata is immutable - Token identity is locked''])
       \<and> (\<exists>r. auditToken env now cl = Inr r
              \<and> metadataInfo r = \<lparr> isMutable = False, updateAuthority = None, uri = None \<rparr>
              \<and> score (riskAssessment r) =
                  100 - (if mint_mintAuthority mi \<noteq> None then 50 else 0)
                      - (if mint_freezeAuthority mi \<noteq> None then 20 else 0)
              \<and> ''CAUTION: Metadata is mutable - Name, symbol, or image can be changed''
                  \<notin> set (warnings (riskAssessment r)))"
proof -
  let ?m = "\<lparr> isMutable = False, updateAuthority = None, uri = None \<rparr>"
  have meta: "checkMetadata (metadataResult env) = ?m"
    using assms(1) by (simp add: checkMetadata_def)
  have mut: "checkMetadataMutability ?m (s, w) =
      (s, w @ [''SAFE: Metadata is immutable - Token identity is locked''])"
    by (simp add: checkMetadataMutability_immutable)
  obtain auth where auth: "checkAuthorities (mint2022 env) (mintLegacy env) = Inr auth"
    and ma: "isActive (mintAuthority auth) = (mint_mintAuthority mi \<noteq> None)"
    and fa: "isActive (freezeAuthority auth) = (mint_freezeAuthority mi \<noteq> None)"
    using assms(4) by (simp add: checkAuthorities_def)
  let ?r = "\<lparr> success = True, tokenInfo = ti, authorityStatus = auth,
              metadataInfo = ?m, liquidityInfo = None,
              riskAssessment = calculateRiskScore auth ?m None,
              timestamp = now, cluster = cl \<rparr>"
  have run: "auditToken env now cl = Inr ?r"
    using assms(2,3) auth meta by (simp add: auditToken_def Let_def)
  have sc: "score (calculateRiskScore auth ?m None) =
      100 - (if mint_mintAuthority mi \<noteq> None then 50 else 0)
          - (if mint_freezeAuthority mi \<noteq> None then 20 else 0)"
    by (simp add: score_calculateRiskScore checkLiquidity_None checkMetadataMutability_fst
        checkFreezeAuthority_fst checkMintAuthority_fst ma fa)
  have wn: "''CAUTION: Metadata is mutable - Name, symbol, or image can be changed''
      \<notin> set (warnings (calculateRiskScore auth ?m None))"
    by (simp add: calculateRiskScore_def Let_def checkLiquidity_None
        checkMetadataMutability_def checkFreezeAuthority_def checkMintAuthority_def)
  show ?thesis
    using meta mut run sc wn by simp
qed

theorem checkMetadata_unreadable_is_immutable_witness:
  "metadataResult unreadableMetadataEnv = Inl (Error ''AccountNotFoundError'')
   \<and> checkMetadata (metadataResult unreadableMetadataEnv) =
       \<lparr> isMutable = False, updateAuthority = None, uri = None \<rparr>
   \<and> (\<exists>r. auditToken unreadableMetadataEnv ''2025-01-01T00:00:00.000Z'' ''mainnet-beta'' = Inr r
          \<and> score (riskAssessment r) = 50)"
proof -
  have h1: "metadataResult unreadableMetadataEnv = Inl (Error ''AccountNotFoundError'')"
    by (simp add: unreadableMetadataEnv_def)
  have h2: "mintPubkey unreadableMetadataEnv = Inr ''So11111111111111111111111111111111111111112''"
    by (simp add: unreadableMetadataEnv_def)
  have h3: "tokenInfoResult unreadableMetadataEnv =
      Inr \<lparr> ti_name = ''Unknown'', ti_symbol = ''Unknown'', ti_decimals = 6,
            ti_supply = ''1000.000000'',
            mintAddress = ''So11111111111111111111111111111111111111112'',
            ti_image = None, ti_description = None \<rparr>"
    by (simp add: unreadableMetadataEnv_def)
  have h4: "getMintWithFallback (mint2022 unreadableMetadataEnv) (mintLegacy unreadableMetadataEnv) =
      Inr \<lparr> mint_mintAuthority = Some ''Auth1111'', mint_freezeAuthority = None,
            mint_supply = 1000000000, mint_decimals = 6 \<rparr>"
    by (simp add: unreadableMetadataEnv_def getMintWithFallback_def)
  show ?thesis
    using checkMetadata_unreadable_is_immutable [OF h1 h2 h3 h4,
        of 0 "[]" "''2025-01-01T00:00:00.000Z''" "''mainnet-beta''"] h1
    by auto
qed

section \<open>Properties of the two retry helpers\<close>


declare trackerRetryLoop.simps [simp del]
declare retryLoop.simps [simp del]

lemma trackerRetryLoop_attempts:
  "attempts (trackerRetryLoop fn mr d i le sl) \<le> max i mr"
proof (induction fn mr d i le sl rule: trackerRetryLoop.induct)
  case (1 fn mr d i le sl)
  show ?case
    using "1.IH"
    by (subst trackerRetryLoop.simps) (auto split: sum.splits)
qed

lemma trackerRetryLoop_stops:
  assumes "i \<le> k" and "k < mr"
    and "\<And>j. i \<le> j \<Longrightarrow> j < k \<Longrightarrow> failsRetryably retriedByTracker fn j"
    and "\<not> failsRetryably retriedByTracker fn k"
  shows "trackerRetryLoop fn mr d i le sl =
           \<lparr> outcome = fn k, attempts = Suc k, sleeps = sl @ map (\<lambda>j. d * 2 ^ j) [i..<k] \<rparr>"
  using assms
proof (induction "k - i" arbitrary: i le sl)
  case 0
  then have ik: "i = k" by simp
  show ?case
    using "0.prems"(2,4) unfolding ik
    by (subst trackerRetryLoop.simps)
       (auto simp: failsRetryably_def retriedByTracker_def split: sum.splits)
next
  case (Suc n)
  then have lt: "i < k" by simp
  obtain e where e: "fn i = Inl e" "isRateLimitError e"
    using Suc.prems(3)[of i] lt
    by (auto simp: failsRetryably_def retriedByTracker_def split: sum.splits)
  have step: "trackerRetryLoop fn mr d i le sl =
      trackerRetryLoop fn mr d (Suc i) e (sl @ [d * 2 ^ i])"
    using lt Suc.prems(2) e by (subst trackerRetryLoop.simps) simp
  have "trackerRetryLoop fn mr d (Suc i) e (sl @ [d * 2 ^ i]) =
      \<lparr> outcome = fn k, attempts = Suc k,
        sleeps = (sl @ [d * 2 ^ i]) @ map (\<lambda>j. d * 2 ^ j) [Suc i..<k] \<rparr>"
    using Suc.hyps(2) lt Suc.prems(2,3,4)
    by (intro Suc.hyps(1)) auto
  then show ?case
    using step lt by (simp add: upt_conv_Cons)
qed

lemma trackerRetryLoop_exhausted:
  assumes "i < mr"
    and "\<And>j. i \<le> j \<Longrightarrow> j < mr \<Longrightarrow> failsRetryably retriedByTracker fn j"
    and "fn (mr - 1) = Inl e"
  shows "trackerRetryLoop fn mr d i le sl =
           \<lparr> outcome = Inl e, attempts = mr, sleeps = sl @ map (\<lambda>j. d * 2 ^ j) [i..<mr] \<rparr>"
  using assms
proof (induction "mr - i" arbitrary: i le sl)
  case 0
  then show ?case by simp
next
  case (Suc n)
  obtain e' where e': "fn i = Inl e'" "isRateLimitError e'"
    using Suc.prems(2)[of i] Suc.prems(1)
    by (auto simp: failsRetryably_def retriedByTracker_def split: sum.splits)
  have step: "trackerRetryLoop fn mr d i le sl =
      trackerRetryLoop fn mr d (Suc i) e' (sl @ [d * 2 ^ i])"
    using Suc.prems(1) e' by (subst trackerRetryLoop.simps) simp
  show ?case
  proof (cases "Suc i < mr")
    case True
    have "trackerRetryLoop fn mr d (Suc i) e' (sl @ [d * 2 ^ i]) =
      \<lparr> outcome = Inl e, attempts = mr,
        sleeps = (sl @ [d * 2 ^ i]) @ map (\<lambda>j. d * 2 ^ j) [Suc i..<mr] \<rparr>"
      using Suc.hyps(2) True Suc.prems(2,3)
      by (intro Suc.hyps(1)) auto
    then show ?thesis
      using step Suc.prems(1) by (simp add: upt_conv_Cons)
  next
    case False
    then have mr: "mr = Suc i" using Suc.prems(1) by simp
    have "e' = e" using e'(1) Suc.prems(3) mr by simp
    moreover have "trackerRetryLoop fn mr d (Suc i) e' (sl @ [d * 2 ^ i]) =
        \<lparr> outcome = Inl e', attempts = Suc i, sleeps = sl @ [d * 2 ^ i] \<rparr>"
      unfolding mr by (subst trackerRetryLoop.simps) simp
    ultimately show ?thesis
      using step mr by simp
  qed
qed


lemma retryLoop_attempts:
  "attempts (retryLoop fn mr d rnd i le sl) \<le> max i mr"
proof (induction fn mr d rnd i le sl rule: retryLoop.induct)
  case (1 fn mr d rnd i le sl)
  show ?case
    using "1.IH"
    by (subst retryLoop.simps) (auto split: sum.splits thrown.splits)
qed

lemma retryLoop_retries:
  assumes "i < mr" and "failsRetryably retriedByCluster fn i"
  shows "\<exists>e. fn i = Inl e \<and>
           retryLoop fn mr d rnd i le sl =
           retryLoop fn mr d rnd (Suc i) e (sl @ [clusterDelay d rnd fn i])"
proof -
  obtain m where m: "fn i = Inl (Error m)" "isRateLimitError (Error m) \<or> isTimeoutError (Error m)"
    using assms(2)
    by (auto simp: failsRetryably_def retriedByCluster_def isRateLimitError_def isTimeoutError_def
        split: sum.splits thrown.splits)
  have "retryLoop fn mr d rnd i le sl =
      retryLoop fn mr d rnd (Suc i) (Error m) (sl @ [clusterDelay d rnd fn i])"
    using assms(1) m by (subst retryLoop.simps) (auto simp: clusterDelay_def)
  then show ?thesis using m(1) by blast
qed

lemma retryLoop_stops:
  assumes "i \<le> k" and "k < mr"
    and "\<And>j. i \<le> j \<Longrightarrow> j < k \<Longrightarrow> failsRetryably retriedByCluster fn j"
    and "\<not> failsRetryably retriedByCluster fn k"
    and "fn k \<noteq> Inl Undefined"
  shows "retryLoop fn mr d rnd i le sl =
           \<lparr> outcome = fn k, attempts = Suc k, sleeps = sl @ map (clusterDelay d rnd fn) [i..<k] \<rparr>"
  using assms
proof (induction "k - i" arbitrary: i le sl)
  case 0
  then have ik: "i = k" by simp
  show ?case
    using "0.prems"(2,4,5) unfolding ik
    by (subst retryLoop.simps)
       (auto simp: failsRetryably_def retriedByCluster_def split: sum.splits thrown.splits)
next
  case (Suc n)
  then have lt: "i < k" by simp
  then have "i < mr" using Suc.prems(2) by simp
  then obtain e where step: "retryLoop fn mr d rnd i le sl =
      retryLoop fn mr d rnd (Suc i) e (sl @ [clusterDelay d rnd fn i])"
    using retryLoop_retries[of i mr fn d rnd le sl] Suc.prems(3)[of i] lt by auto
  have "retryLoop fn mr d rnd (Suc i) e (sl @ [clusterDelay d rnd fn i]) =
      \<lparr> outcome = fn k, attempts = Suc k,
        sleeps = (sl @ [clusterDelay d rnd fn i]) @ map (clusterDelay d rnd fn) [Suc i..<k] \<rparr>"
    using Suc.hyps(2) lt Suc.prems(2,3,4,5)
    by (intro Suc.hyps(1)) auto
  then show ?case
    using step lt by (simp add: upt_conv_Cons)
qed

lemma retryLoop_exhausted:
  assumes "i < mr"
    and "\<And>j. i \<le> j \<Longrightarrow> j < mr \<Longrightarrow> failsRetryably retriedByCluster fn j"
    and "fn (mr - 1) = Inl e"
  shows "retryLoop fn mr d rnd i le sl =
           \<lparr> outcome = Inl e, attempts = mr, sleeps = sl @ map (clusterDelay d rnd fn) [i..<mr] \<rparr>"
  using assms
proof (induction "mr - i" arbitrary: i le sl)
  case 0
  then show ?case by simp
next
  case (Suc n)
  obtain e' where e': "fn i = Inl e'" and step: "retryLoop fn mr d rnd i le sl =
      retryLoop fn mr d rnd (Suc i) e' (sl @ [clusterDelay d rnd fn i])"
    using retryLoop_retries[of i mr fn d rnd le sl] Suc.prems(1) Suc.prems(2)[of i] by auto
  show ?case
  proof (cases "Suc i < mr")
    case True
    have "retryLoop fn mr d rnd (Suc i) e' (sl @ [clusterDelay d rnd fn i]) =
      \<lparr> outcome = Inl e, attempts = mr,
        sleeps = (sl @ [clusterDelay d rnd fn i]) @ map (clusterDelay d rnd fn) [Suc i..<mr] \<rparr>"
      using Suc.hyps(2) True Suc.prems(2,3)
      by (intro Suc.hyps(1)) auto
    then show ?thesis
      using step Suc.prems(1) by (simp add: upt_conv_Cons)
  next
    case False
    then have mr: "mr = Suc i" using Suc.prems(1) by simp
    have "e' = e" using e' Suc.prems(3) mr by simp
    moreover have "retryLoop fn mr d rnd (Suc i) e' (sl @ [clusterDelay d rnd fn i]) =
        \<lparr> outcome = Inl e', attempts = Suc i, sleeps = sl @ [clusterDelay d rnd fn i] \<rparr>"
      unfolding mr by (subst retryLoop.simps) simp
    ultimately show ?thesis
      using step mr by simp
  qed
qed

text \<open>
  C8, as amended. Both helpers invoke the wrapped call at most \<open>maxRetries\<close> times
  (3 at every call site). Each returns the outcome of the first invocation that does
  not fail with an error it retries: a result, or an error of another class, which
  propagates at once. The Developer Tracker's helper retries rate-limit errors only,
  so with it a timeout propagates at once; the helper of the cluster analysis retries
  rate-limit and timeout errors. After failed invocation \<open>j\<close> the delay is
  \<open>initialDelay * 2 ^ j\<close>, plus jitter below a second after a rate-limit error in
  the cluster analysis. When all \<open>maxRetries\<close> invocations fail with retried errors,
  the last error is thrown.
\<close>

theorem retry_policy:
  fixes fn :: "nat \<Rightarrow> thrown + 'a"
  shows
   "attempts (DeveloperTracker_retryWithBackoff fn mr d) \<le> mr
  \<and> attempts (retryWithBackoff fn mr d rnd) \<le> mr
  \<and> (k < mr \<and> (\<forall>j<k. failsRetryably retriedByTracker fn j)
        \<and> \<not> failsRetryably retriedByTracker fn k
      \<longrightarrow> DeveloperTracker_retryWithBackoff fn mr d =
            \<lparr> outcome = fn k, attempts = Suc k, sleeps = map (\<lambda>j. d * 2 ^ j) [0..<k] \<rparr>)
  \<and> (k < mr \<and> (\<forall>j<k. failsRetryably retriedByCluster fn j)
        \<and> \<not> failsRetryably retriedByCluster fn k \<and> fn k \<noteq> Inl Undefined
      \<longrightarrow> retryWithBackoff fn mr d rnd =
            \<lparr> outcome = fn k, attempts = Suc k, sleeps = map (clusterDelay d rnd fn) [0..<k] \<rparr>)
  \<and> (0 < mr \<and> (\<forall>j<mr. failsRetryably retriedByTracker fn j) \<and> fn (mr - 1) = Inl e
      \<longrightarrow> DeveloperTracker_retryWithBackoff fn mr d =
            \<lparr> outcome = Inl e, attempts = mr, sleeps = map (\<lambda>j. d * 2 ^ j) [0..<mr] \<rparr>)
  \<and> (0 < mr \<and> (\<forall>j<mr. failsRetryably retriedByCluster fn j) \<and> fn (mr - 1) = Inl e
      \<longrightarrow> retryWithBackoff fn mr d rnd =
            \<lparr> outcome = Inl e, attempts = mr, sleeps = map (clusterDelay d rnd fn) [0..<mr] \<rparr>)"
proof -
  have a1: "attempts (DeveloperTracker_retryWithBackoff fn mr d) \<le> mr"
    using trackerRetryLoop_attempts[of fn mr d 0 Undefined "[]"]
    by (simp add: DeveloperTracker_retryWithBackoff_def)
  have a2: "attempts (retryWithBackoff fn mr d rnd) \<le> mr"
    using retryLoop_attempts[of fn mr d rnd 0 Undefined "[]"]
    by (simp add: retryWithBackoff_def)
  have s1: "DeveloperTracker_retryWithBackoff fn mr d =
      \<lparr> outcome = fn k, attempts = Suc k, sleeps = map (\<lambda>j. d * 2 ^ j) [0..<k] \<rparr>"
    if "k < mr" "\<forall>j<k. failsRetryably retriedByTracker fn j"
       "\<not> failsRetryably retriedByTracker fn k"
    using trackerRetryLoop_stops[of 0 k mr fn d Undefined "[]"] that
    by (simp add: DeveloperTracker_retryWithBackoff_def)
  have s2: "retryWithBackoff fn mr d rnd =
      \<lparr> outcome = fn k, attempts = Suc k, sleeps = map (clusterDelay d rnd fn) [0..<k] \<rparr>"
    if "k < mr" "\<forall>j<k. failsRetryably retriedByCluster fn j"
       "\<not> failsRetryably retriedByCluster fn k" "fn k \<noteq> Inl Undefined"
    using retryLoop_stops[of 0 k mr fn d rnd Undefined "[]"] that
    by (simp add: retryWithBackoff_def)
  have x1: "DeveloperTracker_retryWithBackoff fn mr d =
      \<lparr> outcome = Inl e, attempts = mr, sleeps = map (\<lambda>j. d * 2 ^ j) [0..<mr] \<rparr>"
    if "0 < mr" "\<forall>j<mr. failsRetryably retriedByTracker fn j" "fn (mr - 1) = Inl e"
    using trackerRetryLoop_exhausted[of 0 mr fn e d Undefined "[]"] that
    by (simp add: DeveloperTracker_retryWithBackoff_def)
  have x2: "retryWithBackoff fn mr d rnd =
      \<lparr> outcome = Inl e, attempts = mr, sleeps = map (clusterDelay d rnd fn) [0..<mr] \<rparr>"
    if "0 < mr" "\<forall>j<mr. failsRetryably retriedByCluster fn j" "fn (mr - 1) = Inl e"
    using retryLoop_exhausted[of 0 mr fn e d rnd Undefined "[]"] that
    by (simp add: retryWithBackoff_def)
  show ?thesis
    using a1 a2 s1 s2 x1 x2 by blast
qed

lemma rateLimitedTwice_fails:
  "\<forall>j<2. failsRetryably retriedByTracker rateLimitedTwice j \<and>
          failsRetryably retriedByCluster rateLimitedTwice j"
  by (simp add: failsRetryably_def retriedByTracker_def retriedByCluster_def
      rateLimitedTwice_def isRateLimitError_def)

lemma rateLimitedTwice_succeeds:
  "\<not> failsRetryably r rateLimitedTwice 2 \<and> rateLimitedTwice 2 = Inr 7"
  by (simp add: failsRetryably_def rateLimitedTwice_def)

lemma alwaysRateLimited_fails:
  "\<forall>j<3. failsRetryably retriedByTracker alwaysRateLimited j \<and>
          failsRetryably retriedByCluster alwaysRateLimited j"
  by (simp add: failsRetryably_def retriedByTracker_def retriedByCluster_def
      alwaysRateLimited_def isRateLimitError_def)

theorem retry_policy_witness:
  "DeveloperTracker_retryWithBackoff rateLimitedTwice 3 1000 =
     \<lparr> outcome = Inr 7, attempts = 3, sleeps = [1000, 2000] \<rparr>
   \<and> retryWithBackoff rateLimitedTwice 3 1000 halfJitter =
     \<lparr> outcome = Inr 7, attempts = 3, sleeps = [1500, 2500] \<rparr>
   \<and> DeveloperTracker_retryWithBackoff alwaysRateLimited 3 1000 =
     \<lparr> outcome = Inl (Error ''429 Too Many Requests''), attempts = 3,
       sleeps = [1000, 2000, 4000] \<rparr>
   \<and> retryWithBackoff alwaysRateLimited 3 1000 halfJitter =
     \<lparr> outcome = Inl (Error ''429 Too Many Requests''), attempts = 3,
       sleeps = [1500, 2500, 4500] \<rparr>"
proof -
  have up: "[0..<2] = [0, Suc 0]" "[0..<3] = [0, Suc 0, 2]"
    by (simp_all add: upt_rec)
  have d: "clusterDelay 1000 halfJitter rateLimitedTwice 0 = 1500"
          "clusterDelay 1000 halfJitter rateLimitedTwice (Suc 0) = 2500"
    by (simp_all add: clusterDelay_def rateLimitedTwice_def halfJitter_def isRateLimitError_def)
  have d': "clusterDelay 1000 halfJitter alwaysRateLimited 0 = 1500"
          "clusterDelay 1000 halfJitter alwaysRateLimited (Suc 0) = 2500"
          "clusterDelay 1000 halfJitter alwaysRateLimited 2 = 4500"
    by (simp_all add: clusterDelay_def alwaysRateLimited_def halfJitter_def isRateLimitError_def)
  have l: "alwaysRateLimited (3 - 1) = Inl (Error ''429 Too Many Requests'')"
    by (simp add: alwaysRateLimited_def)
  have a: "DeveloperTracker_retryWithBackoff rateLimitedTwice 3 1000 =
     \<lparr> outcome = Inr 7, attempts = 3, sleeps = [1000, 2000] \<rparr>
   \<and> retryWithBackoff rateLimitedTwice 3 1000 halfJitter =
     \<lparr> outcome = Inr 7, attempts = 3, sleeps = [1500, 2500] \<rparr>"
    using retry_policy[of rateLimitedTwice 3 1000 halfJitter 2 Undefined]
      rateLimitedTwice_fails rateLimitedTwice_succeeds[of retriedByTracker]
      rateLimitedTwice_succeeds[of retriedByCluster]
    by (simp add: up d)
  have b: "DeveloperTracker_retryWithBackoff alwaysRateLimited 3 1000 =
     \<lparr> outcome = Inl (Error ''429 Too Many Requests''), attempts = 3,
       sleeps = [1000, 2000, 4000] \<rparr>
   \<and> retryWithBackoff alwaysRateLimited 3 1000 halfJitter =
     \<lparr> outcome = Inl (Error ''429 Too Many Requests''), attempts = 3,
       sleeps = [1500, 2500, 4500] \<rparr>"
    using retry_policy[of alwaysRateLimited 3 1000 halfJitter 0 "Error ''429 Too Many Requests''"]
      alwaysRateLimited_fails l
    by (simp add: up d')
  show ?thesis
    using a b by simp
qed

text \<open>
  C8 as stated fails for the Developer Tracker: a call that times out is invoked
  once and its error propagates, while the helper of the cluster analysis makes all
  three attempts.
\<close>

theorem timeout_not_retried_by_tracker:
  "isTimeoutError (Error ''connect ETIMEDOUT'')
   \<and> alwaysTimeout 0 = Inl (Error ''connect ETIMEDOUT'')
   \<and> DeveloperTracker_retryWithBackoff alwaysTimeout 3 1000 =
       \<lparr> outcome = Inl (Error ''connect ETIMEDOUT''), attempts = 1, sleeps = [] \<rparr>
   \<and> attempts (retryWithBackoff alwaysTimeout 3 1000 halfJitter) = 3"
  by (simp add: DeveloperTracker_retryWithBackoff_def retryWithBackoff_def
      trackerRetryLoop.simps retryLoop.simps alwaysTimeout_def isRateLimitError_def
      isTimeoutError_def)

section \<open>Properties of the deployment history scanner\<close>

lemma checkTokenLiquidity_run:
  assumes "k < 3" and "rateLimitedBefore gw token k"
    and "liquidityCheckAttempt token (gw (address token) k) = Inr checked"
  shows "checkTokenLiquidity gw token = checked"
proof -
  let ?fn = "\<lambda>i. liquidityCheckAttempt token (gw (address token) i)"
  have "\<not> failsRetryably retriedByTracker ?fn k"
    using assms(3) by (simp add: failsRetryably_def)
  moreover have "\<And>j. 0 \<le> j \<Longrightarrow> j < k \<Longrightarrow> failsRetryably retriedByTracker ?fn j"
    using assms(2) by (simp add: rateLimitedBefore_def list_all_iff)
  ultimately have "trackerRetryLoop ?fn 3 1000 0 Undefined [] =
      \<lparr> outcome = ?fn k, attempts = Suc k, sleeps = [] @ map (\<lambda>j. 1000 * 2 ^ j) [0..<k] \<rparr>"
    using assms(1) by (intro trackerRetryLoop_stops) auto
  then show ?thesis
    using assms(3)
    by (simp add: checkTokenLiquidity_def liquidityCheck_def DeveloperTracker_retryWithBackoff_def)
qed

lemma checkTokenLiquidity_first_run:
  assumes "liquidityCheckAttempt token (gw (address token) 0) = Inr checked"
  shows "checkTokenLiquidity gw token = checked"
  using assms checkTokenLiquidity_run[of 0 gw token checked]
  by (simp add: rateLimitedBefore_def)

declare byteLength.simps [simp del]
declare bitLength.simps [simp del]

lemmas double_arithmetic =
  topHolderPercentage_def doubleValue_def timesDouble_def divideDouble_def Number_def
  roundToDouble_def floorLog2_def roundHalfEven_def bitLength.simps Let_def

lemma sampleToken_key: "newPublicKey (address sampleToken) = Inr (address sampleToken)"
  by (simp add: sampleToken_def discoveredToken_def newPublicKey_def decodedLength_def
      BASE58_ALPHABET_def byteLength.simps)

lemma liquidityCheckAttempt_status:
  assumes "newPublicKey (address token) = Inr tokenKey"
    and "getMintWithFallback (lf_mint2022 f) (lf_mintLegacy f) = Inr mintInfo"
    and "largestAccounts f = Inr accounts"
  shows "\<exists>checked. liquidityCheckAttempt token f = Inr checked \<and>
           status checked =
             (if ownAuthorityActive mintInfo \<or> mint_supply mintInfo = 0 then Rugged
              else case accounts of
                     [] \<Rightarrow> Rugged
                   | largest # others \<Rightarrow>
                       if topHolderPercentage largest (mint_supply mintInfo) > 95 then Rugged
                       else if topHolderPercentage largest (mint_supply mintInfo) > 80 then Dead
                       else Active)"
  using assms
  by (auto simp: liquidityCheckAttempt_def ownAuthorityActive_def markRugged_def
      split: list.splits)

text \<open>
  C3, as amended. Take a discovered token whose address is a public key and whose mint
  and list of largest accounts are fetched, at the first run or at a later one of the
  three after rate-limit errors only; amounts and supply are 64-bit. The share of the
  largest holder is the double \<open>(Number(amount) / Number(supply)) * 100\<close>.
  \<open>checkTokensLiquidity\<close> marks the token Rugged exactly when the mint authority is
  active and not the one of Pump.fun, or the supply is zero, or the list of largest
  accounts is empty, or that share is greater than 95; Dead exactly when none of the
  first two holds and the share is greater than 80 and at most 95; Active exactly when
  none of the first two holds and the share is at most 80.
\<close>

theorem checkTokensLiquidity_classification:
  assumes "i < length tokens"
    and "newPublicKey (address (tokens ! i)) = Inr tokenKey"
    and "k < 3" and "rateLimitedBefore gw (tokens ! i) k"
    and "getMintWithFallback (lf_mint2022 (gw (address (tokens ! i)) k))
           (lf_mintLegacy (gw (address (tokens ! i)) k)) = Inr mintInfo"
    and "largestAccounts (gw (address (tokens ! i)) k) = Inr accounts"
    and "mint_supply mintInfo < 2 ^ 64" and "\<forall>amount\<in>set accounts. amount < 2 ^ 64"
  shows "(status (checkTokensLiquidity gw tokens ! i) = Rugged \<longleftrightarrow>
            ownAuthorityActive mintInfo \<or> mint_supply mintInfo = 0 \<or> accounts = []
            \<or> (\<exists>largest others. accounts = largest # others
                  \<and> topHolderPercentage largest (mint_supply mintInfo) > 95))
       \<and> (status (checkTokensLiquidity gw tokens ! i) = Dead \<longleftrightarrow>
            \<not> ownAuthorityActive mintInfo \<and> mint_supply mintInfo \<noteq> 0
            \<and> (\<exists>largest others. accounts = largest # others
                  \<and> 80 < topHolderPercentage largest (mint_supply mintInfo)
                  \<and> topHolderPercentage largest (mint_supply mintInfo) \<le> 95))
       \<and> (status (checkTokensLiquidity gw tokens ! i) = Active \<longleftrightarrow>
            \<not> ownAuthorityActive mintInfo \<and> mint_supply mintInfo \<noteq> 0
            \<and> (\<exists>largest others. accounts = largest # others
                  \<and> topHolderPercentage largest (mint_supply mintInfo) \<le> 80))"
proof -
  obtain checked where run: "liquidityCheckAttempt (tokens ! i) (gw (address (tokens ! i)) k) = Inr checked"
    and st: "status checked =
             (if ownAuthorityActive mintInfo \<or> mint_supply mintInfo = 0 then Rugged
              else case accounts of
                     [] \<Rightarrow> Rugged
                   | largest # others \<Rightarrow>
                       if topHolderPercentage largest (mint_supply mintInfo) > 95 then Rugged
                       else if topHolderPercentage largest (mint_supply mintInfo) > 80 then Dead
                       else Active)"
    using liquidityCheckAttempt_status[OF assms(2,5,6)] by blast
  have res: "checkTokensLiquidity gw tokens ! i = checked"
    using assms(1) checkTokenLiquidity_run[OF assms(3,4) run]
    by (simp add: checkTokensLiquidity_def)
  show ?thesis
    unfolding res st
    by (cases accounts) auto
qed

theorem checkTokensLiquidity_classification_witness:
  "newPublicKey (address sampleToken) = Inr (address sampleToken)
   \<and> rateLimitedBefore concentratedGateway sampleToken 1
   \<and> topHolderPercentage 900 (mint_supply revokedMint) = 90
   \<and> status (checkTokensLiquidity concentratedGateway [sampleToken] ! 0) = Dead"
proof -
  have h1: "(0::nat) < length [sampleToken]" by simp
  have h2: "newPublicKey (address ([sampleToken] ! 0)) = Inr (address sampleToken)"
    by (simp add: sampleToken_key)
  have h3: "(1::nat) < 3" by simp
  have h4: "rateLimitedBefore concentratedGateway ([sampleToken] ! 0) 1"
    by (simp add: rateLimitedBefore_def upt_rec failsRetryably_def retriedByTracker_def
        liquidityCheckAttempt_def sampleToken_key concentratedGateway_def
        getMintWithFallback_def isRateLimitError_def)
  have h5: "getMintWithFallback (lf_mint2022 (concentratedGateway (address ([sampleToken] ! 0)) 1))
           (lf_mintLegacy (concentratedGateway (address ([sampleToken] ! 0)) 1)) = Inr revokedMint"
    by (simp add: concentratedGateway_def getMintWithFallback_def)
  have h6: "largestAccounts (concentratedGateway (address ([sampleToken] ! 0)) 1) = Inr [900, 60, 40]"
    by (simp add: concentratedGateway_def)
  have h7: "mint_supply revokedMint < 2 ^ 64"
    by (simp add: revokedMint_def)
  have h8: "\<forall>amount\<in>set [900, 60, 40::nat]. amount < 2 ^ 64"
    by simp
  have p: "topHolderPercentage 900 (mint_supply revokedMint) = 90"
    by (simp add: revokedMint_def double_arithmetic)
  have a: "\<not> ownAuthorityActive revokedMint" "mint_supply revokedMint \<noteq> 0"
    by (simp_all add: ownAuthorityActive_def revokedMint_def)
  have "status (checkTokensLiquidity concentratedGateway [sampleToken] ! 0) = Dead"
    using checkTokensLiquidity_classification[OF h1 h2 h3 h4 h5 h6 h7 h8] p a by simp
  then show ?thesis
    using sampleToken_key h4 p by simp
qed

text \<open>
  C3 as stated fails: a mint with revoked authority and a supply of 1000 whose list of
  largest accounts comes back empty is marked Rugged, though none of the three stated
  conditions holds.
\<close>

theorem empty_holder_list_is_rugged:
  "newPublicKey (address sampleToken) = Inr (address sampleToken)
   \<and> getMintWithFallback (lf_mint2022 (emptyHoldersGateway (address sampleToken) 0))
       (lf_mintLegacy (emptyHoldersGateway (address sampleToken) 0)) =
     Inr \<lparr> mint_mintAuthority = None, mint_freezeAuthority = None,
           mint_supply = 1000, mint_decimals = 6 \<rparr>
   \<and> largestAccounts (emptyHoldersGateway (address sampleToken) 0) = Inr []
   \<and> status (checkTokensLiquidity emptyHoldersGateway [sampleToken] ! 0) = Rugged"
proof -
  have "liquidityCheckAttempt sampleToken (emptyHoldersGateway (address sampleToken) 0) =
      Inr (markRugged sampleToken)"
    by (simp add: liquidityCheckAttempt_def sampleToken_key emptyHoldersGateway_def
        getMintWithFallback_def revokedMint_def)
  then have "checkTokenLiquidity emptyHoldersGateway sampleToken = markRugged sampleToken"
    by (rule checkTokenLiquidity_first_run)
  then show ?thesis
    using sampleToken_key
    by (simp add: checkTokensLiquidity_def markRugged_def emptyHoldersGateway_def
        getMintWithFallback_def revokedMint_def)
qed

text \<open>
  The share is compared as a double. A holder with 9500000000000000001 of a supply of
  \<open>10 ^ 19\<close> owns more than 95 percent, but the computed share is exactly 95 and the
  token is marked Dead; likewise for 5820586447941494 of 6126933103096309, where both
  amounts are doubles. A token whose address is not a public key fails its check.
\<close>

lemma rounded_share_is_dead:
  "95 < real 9500000000000000001 / real 10000000000000000000 * 100
   \<and> topHolderPercentage 9500000000000000001 10000000000000000000 = 95
   \<and> 95 < real 5820586447941494 / real 6126933103096309 * 100
   \<and> topHolderPercentage 5820586447941494 6126933103096309 = 95
   \<and> status (checkTokensLiquidity roundingGateway [sampleToken] ! 0) = Dead"
proof -
  have p: "topHolderPercentage 9500000000000000001 10000000000000000000 = 95"
    "topHolderPercentage 5820586447941494 6126933103096309 = 95"
    by (simp_all add: double_arithmetic)
  have "liquidityCheckAttempt sampleToken (roundingGateway (address sampleToken) 0) =
      Inr (sampleToken\<lparr> status := Dead, liquidityValue := 1 \<rparr>)"
    by (simp add: liquidityCheckAttempt_def sampleToken_key roundingGateway_def
        getMintWithFallback_def revokedMint_def p)
  then have "checkTokenLiquidity roundingGateway sampleToken =
      sampleToken\<lparr> status := Dead, liquidityValue := 1 \<rparr>"
    by (rule checkTokenLiquidity_first_run)
  then show ?thesis
    using p by (simp add: checkTokensLiquidity_def)
qed

lemma invalid_address_fails:
  "newPublicKey ''Mint1'' = Inl (Error ''Invalid public key input'')
   \<and> liquidityCheckAttempt (sampleToken\<lparr> address := ''Mint1'' \<rparr>) f =
       Inl (Error ''Invalid public key input'')"
  by (simp add: liquidityCheckAttempt_def newPublicKey_def decodedLength_def
      BASE58_ALPHABET_def byteLength.simps)

lemma checkTokenLiquidity_failed:
  assumes "checkFailed gw token"
  shows "checkTokenLiquidity gw token = token\<lparr> status := Dead, liquidityValue := 0 \<rparr>"
  using assms
  by (auto simp: checkFailed_def checkTokenLiquidity_def split: sum.splits)

lemma ruggedCount_checked:
  assumes "\<forall>t\<in>set tokens. \<not> isRugged t"
  shows "ruggedCount (checkTokensLiquidity gw tokens) =
         ruggedCount (checkTokensLiquidity gw (filter (\<lambda>t. \<not> checkFailed gw t) tokens))"
  using assms
proof (induction tokens)
  case Nil
  then show ?case by simp
next
  case (Cons t ts)
  then have ih: "ruggedCount (checkTokensLiquidity gw ts) =
         ruggedCount (checkTokensLiquidity gw (filter (\<lambda>t. \<not> checkFailed gw t) ts))"
    by simp
  show ?case
  proof (cases "checkFailed gw t")
    case True
    then have "\<not> (isRugged (checkTokenLiquidity gw t) \<or> status (checkTokenLiquidity gw t) = Rugged)"
      using Cons.prems by (simp add: checkTokenLiquidity_failed)
    then show ?thesis
      using True ih by (simp add: ruggedCount_def checkTokensLiquidity_def)
  next
    case False
    then show ?thesis
      using ih by (simp add: ruggedCount_def checkTokensLiquidity_def)
  qed
qed

lemma ruggedCount_le_length: "ruggedCount ts \<le> length ts"
  by (simp add: ruggedCount_def)

lemma winRate_mono:
  assumes "ruggedCount xs = ruggedCount ys" and "length ys \<le> length xs"
  shows "winRate ys \<le> winRate xs"
proof (cases "length ys = 0")
  case True
  then have "ruggedCount xs = 0"
    using assms(1) by (simp add: ruggedCount_def)
  then show ?thesis
    using True by (simp add: winRate_def)
next
  case False
  define r where "r = real (ruggedCount ys)"
  define m where "m = real (length ys)"
  define n where "n = real (length xs)"
  have pos: "0 < m" "m \<le> n" "0 \<le> r"
    using False assms(2) by (simp_all add: m_def n_def r_def)
  have "r / n \<le> r / m"
    using pos by (intro divide_left_mono) auto
  then have "(m - r) / m \<le> (n - r) / n"
    using pos by (simp add: diff_divide_distrib)
  then have "(m - r) / m * 100 \<le> (n - r) / n * 100"
    by (rule mult_right_mono) simp
  moreover have "0 < length ys" using False by simp
  then have "winRate ys = (m - r) / m * 100"
    by (simp add: winRate_def m_def r_def)
  moreover have "length xs > 0"
    using False assms(2) by linarith
  then have "winRate xs = (n - r) / n * 100"
    using assms(1) by (simp add: winRate_def n_def r_def)
  ultimately show ?thesis by simp
qed

lemma ruggedCount_map_mono:
  assumes "\<forall>t\<in>set ts. (isRugged (f t) \<or> status (f t) = Rugged) \<longrightarrow> (isRugged (g t) \<or> status (g t) = Rugged)"
  shows "ruggedCount (map f ts) \<le> ruggedCount (map g ts)"
  using assms by (induction ts) (auto simp: ruggedCount_def)

lemma winRate_antimono:
  assumes "length xs = length ys" and "ruggedCount xs \<le> ruggedCount ys"
  shows "winRate ys \<le> winRate xs"
proof (cases "length xs = 0")
  case True
  then show ?thesis using assms(1) by (simp add: winRate_def)
next
  case False
  then have pos: "0 < length xs" "0 < length ys" using assms(1) by simp_all
  have "real (length xs) - real (ruggedCount ys) \<le> real (length xs) - real (ruggedCount xs)"
    using assms(2) by simp
  then have "(real (length xs) - real (ruggedCount ys)) / real (length xs)
      \<le> (real (length xs) - real (ruggedCount xs)) / real (length xs)"
    by (rule divide_right_mono) simp
  then have "(real (length xs) - real (ruggedCount ys)) / real (length xs) * 100
      \<le> (real (length xs) - real (ruggedCount xs)) / real (length xs) * 100"
    by (rule mult_right_mono) simp
  then show ?thesis
    using pos assms(1) by (simp add: winRate_def)
qed

lemma reportedWinRate_mono:
  assumes "winRate xs \<le> winRate ys"
  shows "reportedWinRate xs \<le> reportedWinRate ys"
proof -
  have "winRate xs * 100 + 1 / 2 \<le> winRate ys * 100 + 1 / 2"
    using assms by simp
  then have "Math_round (winRate xs * 100) \<le> Math_round (winRate ys * 100)"
    unfolding Math_round_def by (rule floor_mono)
  then show ?thesis
    by (simp add: reportedWinRate_def divide_right_mono)
qed

lemma failure_never_worse:
  assumes "\<forall>t\<in>set tokens. \<not> isRugged t"
    and "\<forall>t\<in>set tokens. \<not> checkFailed gw t \<longrightarrow> checkTokenLiquidity gw' t = checkTokenLiquidity gw t"
  shows "ruggedCount (checkTokensLiquidity gw tokens) \<le> ruggedCount (checkTokensLiquidity gw' tokens)
       \<and> winRate (checkTokensLiquidity gw' tokens) \<le> winRate (checkTokensLiquidity gw tokens)"
proof -
  have "\<forall>t\<in>set tokens. (isRugged (checkTokenLiquidity gw t) \<or> status (checkTokenLiquidity gw t) = Rugged)
      \<longrightarrow> (isRugged (checkTokenLiquidity gw' t) \<or> status (checkTokenLiquidity gw' t) = Rugged)"
  proof
    fix t assume t: "t \<in> set tokens"
    show "(isRugged (checkTokenLiquidity gw t) \<or> status (checkTokenLiquidity gw t) = Rugged)
      \<longrightarrow> (isRugged (checkTokenLiquidity gw' t) \<or> status (checkTokenLiquidity gw' t) = Rugged)"
    proof (cases "checkFailed gw t")
      case True
      then show ?thesis using assms(1) t by (simp add: checkTokenLiquidity_failed)
    next
      case False
      then show ?thesis using assms(2) t by simp
    qed
  qed
  then have rc: "ruggedCount (checkTokensLiquidity gw tokens) \<le> ruggedCount (checkTokensLiquidity gw' tokens)"
    unfolding checkTokensLiquidity_def by (rule ruggedCount_map_mono)
  have "length (checkTokensLiquidity gw tokens) = length (checkTokensLiquidity gw' tokens)"
    by (simp add: checkTokensLiquidity_def)
  then have "winRate (checkTokensLiquidity gw' tokens) \<le> winRate (checkTokensLiquidity gw tokens)"
    using rc by (rule winRate_antimono)
  then show ?thesis using rc by simp
qed

text \<open>
  C10. Discovered tokens start with \<open>isRugged\<close> false. A token whose lifecycle check
  ends in a throw (an error that is not retried, or a rate limit on all three runs)
  gets the status Dead and keeps \<open>isRugged\<close> false. So the tokens whose check failed
  add nothing to \<open>ruggedCount\<close> and do not lower the win rate below that of the
  other tokens alone; and against any gateway that answers the same wherever the check
  does not fail, \<open>ruggedCount\<close> is not larger and the win rate not lower. The same
  holds of the rounded win rate that \<open>analyzeDeployer\<close> returns.
\<close>

theorem failed_check_is_dead_not_rugged:
  assumes "\<forall>t\<in>set tokens. \<not> isRugged t"
  shows "(\<forall>i<length tokens. checkFailed gw (tokens ! i) \<longrightarrow>
            status (checkTokensLiquidity gw tokens ! i) = Dead
            \<and> \<not> isRugged (checkTokensLiquidity gw tokens ! i))
       \<and> ruggedCount (checkTokensLiquidity gw tokens) =
           ruggedCount (checkTokensLiquidity gw (filter (\<lambda>t. \<not> checkFailed gw t) tokens))
       \<and> winRate (checkTokensLiquidity gw (filter (\<lambda>t. \<not> checkFailed gw t) tokens))
           \<le> winRate (checkTokensLiquidity gw tokens)
       \<and> reportedWinRate (checkTokensLiquidity gw (filter (\<lambda>t. \<not> checkFailed gw t) tokens))
           \<le> reportedWinRate (checkTokensLiquidity gw tokens)
       \<and> ((\<forall>t\<in>set tokens. \<not> checkFailed gw t \<longrightarrow>
                checkTokenLiquidity gw' t = checkTokenLiquidity gw t)
            \<longrightarrow> ruggedCount (checkTokensLiquidity gw tokens)
                  \<le> ruggedCount (checkTokensLiquidity gw' tokens)
              \<and> winRate (checkTokensLiquidity gw' tokens)
                  \<le> winRate (checkTokensLiquidity gw tokens)
              \<and> reportedWinRate (checkTokensLiquidity gw' tokens)
                  \<le> reportedWinRate (checkTokensLiquidity gw tokens))"
proof -
  have one: "status (checkTokensLiquidity gw tokens ! i) = Dead
            \<and> \<not> isRugged (checkTokensLiquidity gw tokens ! i)"
    if "i < length tokens" "checkFailed gw (tokens ! i)" for i
    using that assms by (simp add: checkTokensLiquidity_def checkTokenLiquidity_failed)
  have rc: "ruggedCount (checkTokensLiquidity gw tokens) =
           ruggedCount (checkTokensLiquidity gw (filter (\<lambda>t. \<not> checkFailed gw t) tokens))"
    by (rule ruggedCount_checked[OF assms])
  have "length (checkTokensLiquidity gw (filter (\<lambda>t. \<not> checkFailed gw t) tokens))
      \<le> length (checkTokensLiquidity gw tokens)"
    by (simp add: checkTokensLiquidity_def)
  then have wr: "winRate (checkTokensLiquidity gw (filter (\<lambda>t. \<not> checkFailed gw t) tokens))
           \<le> winRate (checkTokensLiquidity gw tokens)"
    using rc by (intro winRate_mono) simp_all
  have other: "ruggedCount (checkTokensLiquidity gw tokens)
                  \<le> ruggedCount (checkTokensLiquidity gw' tokens)
              \<and> winRate (checkTokensLiquidity gw' tokens)
                  \<le> winRate (checkTokensLiquidity gw tokens)
              \<and> reportedWinRate (checkTokensLiquidity gw' tokens)
                  \<le> reportedWinRate (checkTokensLiquidity gw tokens)"
    if "\<forall>t\<in>set tokens. \<not> checkFailed gw t \<longrightarrow>
                checkTokenLiquidity gw' t = checkTokenLiquidity gw t"
    using failure_never_worse[OF assms that] reportedWinRate_mono by blast
  show ?thesis
    using one rc wr reportedWinRate_mono[OF wr] other by blast
qed

lemma rateLimitedGateway_fails: "checkFailed rateLimitedGateway sampleToken"
proof -
  let ?fn = "\<lambda>i. liquidityCheckAttempt sampleToken (rateLimitedGateway (address sampleToken) i)"
  have f: "?fn j = Inl (Error ''429 Too Many Requests'')" for j
    by (simp add: liquidityCheckAttempt_def sampleToken_key rateLimitedGateway_def
        getMintWithFallback_def)
  have "trackerRetryLoop ?fn 3 1000 0 Undefined [] =
      \<lparr> outcome = Inl (Error ''429 Too Many Requests''), attempts = 3,
        sleeps = [] @ map (\<lambda>j. 1000 * 2 ^ j) [0..<3] \<rparr>"
    by (intro trackerRetryLoop_exhausted)
       (simp_all add: f failsRetryably_def retriedByTracker_def isRateLimitError_def)
  then show ?thesis
    by (simp add: checkFailed_def liquidityCheck_def DeveloperTracker_retryWithBackoff_def)
qed

theorem failed_check_is_dead_not_rugged_witness:
  "checkFailed rateLimitedGateway sampleToken
   \<and> \<not> isRugged sampleToken
   \<and> status (checkTokensLiquidity rateLimitedGateway [sampleToken] ! 0) = Dead
   \<and> \<not> isRugged (checkTokensLiquidity rateLimitedGateway [sampleToken] ! 0)
   \<and> ruggedCount (checkTokensLiquidity rateLimitedGateway [sampleToken]) = 0
   \<and> winRate (checkTokensLiquidity rateLimitedGateway [sampleToken]) = 100
   \<and> ruggedCount (checkTokensLiquidity emptyHoldersGateway [sampleToken]) = 1
   \<and> winRate (checkTokensLiquidity emptyHoldersGateway [sampleToken])
       \<le> winRate (checkTokensLiquidity rateLimitedGateway [sampleToken])"
proof -
  have h: "\<forall>t\<in>set [sampleToken]. \<not> isRugged t"
    by (simp add: sampleToken_def discoveredToken_def)
  have e: "ruggedCount (checkTokensLiquidity rateLimitedGateway []) = 0"
          "winRate (checkTokensLiquidity rateLimitedGateway []) = 100"
    by (simp_all add: checkTokensLiquidity_def ruggedCount_def winRate_def)
  have le: "winRate ts \<le> 100" for ts
    by (simp add: winRate_def ruggedCount_def divide_le_eq)
  have same: "\<forall>t\<in>set [sampleToken]. \<not> checkFailed rateLimitedGateway t \<longrightarrow>
      checkTokenLiquidity emptyHoldersGateway t = checkTokenLiquidity rateLimitedGateway t"
    using rateLimitedGateway_fails by simp
  have "liquidityCheckAttempt sampleToken (emptyHoldersGateway (address sampleToken) 0) =
      Inr (markRugged sampleToken)"
    by (simp add: liquidityCheckAttempt_def sampleToken_key emptyHoldersGateway_def
        getMintWithFallback_def revokedMint_def)
  then have "checkTokenLiquidity emptyHoldersGateway sampleToken = markRugged sampleToken"
    by (rule checkTokenLiquidity_first_run)
  then have r: "ruggedCount (checkTokensLiquidity emptyHoldersGateway [sampleToken]) = 1"
    by (simp add: checkTokensLiquidity_def ruggedCount_def markRugged_def)
  show ?thesis
    using failed_check_is_dead_not_rugged[OF h, of rateLimitedGateway emptyHoldersGateway]
      rateLimitedGateway_fails h e same r
      le[of "checkTokensLiquidity rateLimitedGateway [sampleToken]"]
    by (auto simp: less_Suc_eq)
qed

section \<open>Properties of the deployer identifier\<close>

lemma creationTransactionDeployer_Some:
  assumes "accountKeys tx \<noteq> []"
  shows "\<exists>deployer. creationTransactionDeployer gw tx = Some deployer"
  using assms
  by (cases "accountKeys tx")
     (auto simp: creationTransactionDeployer_def feePayer_def split: option.splits)

lemma findDeployer_None_D:
  assumes "findDeployer gw = None"
  shows "mintAuthorityDeployer gw = None
       \<and> ((\<exists>e. signaturesForAddress gw = Inl e)
          \<or> signaturesForAddress gw = Inr []
          \<or> (\<exists>signatures. signaturesForAddress gw = Inr signatures
               \<and> ((\<exists>e. parsedTransaction gw (sig_signature (last signatures)) = Inl e)
                  \<or> parsedTransaction gw (sig_signature (last signatures)) = Inr None
                  \<or> (\<exists>tx. parsedTransaction gw (sig_signature (last signatures)) = Inr (Some tx)
                        \<and> accountKeys tx = []))))"
proof -
  have m: "mintAuthorityDeployer gw = None"
    using assms by (auto simp: findDeployer_def split: option.splits)
  show ?thesis
  proof (cases "signaturesForAddress gw")
    case (Inl e)
    then show ?thesis using m by simp
  next
    case (Inr signatures)
    show ?thesis
    proof (cases "signatures = []")
      case True
      then show ?thesis using m Inr by simp
    next
      case False
      show ?thesis
      proof (cases "parsedTransaction gw (sig_signature (last signatures))")
        case (Inl e)
        then show ?thesis using m Inr by simp
      next
        case txr: (Inr txo)
        show ?thesis
        proof (cases txo)
          case None
          then show ?thesis using m Inr txr by simp
        next
          case (Some tx)
          have "creationTransactionDeployer gw tx = None"
            using assms m Inr False txr Some by (simp add: findDeployer_def)
          then have "accountKeys tx = []"
            using creationTransactionDeployer_Some[of tx gw] by auto
          then show ?thesis using m Inr txr Some by simp
        qed
      qed
    qed
  qed
qed

text \<open>
  C7, as amended. \<open>findDeployer\<close> returns a deployer whenever the signature scan
  returns at least one signature and the transaction of the oldest one is returned with
  at least one account key. It returns \<open>null\<close> only when the mint authority gives no
  deployer (the read failed, or the authority is revoked or is the one of Pump.fun) and
  the scan throws, or finds no signature, or the transaction of the oldest signature
  cannot be read (the call throws or returns \<open>null\<close>), or that transaction has no
  account keys.
\<close>

theorem findDeployer_resolves:
  "(signaturesForAddress gw = Inr signatures \<and> signatures \<noteq> []
      \<and> parsedTransaction gw (sig_signature (last signatures)) = Inr (Some tx)
      \<and> accountKeys tx \<noteq> []
     \<longrightarrow> (\<exists>deployer. findDeployer gw = Some deployer))
   \<and> (findDeployer gw = None
     \<longrightarrow> mintAuthorityDeployer gw = None
       \<and> ((\<exists>e. signaturesForAddress gw = Inl e)
          \<or> signaturesForAddress gw = Inr []
          \<or> (\<exists>sigs. signaturesForAddress gw = Inr sigs
               \<and> ((\<exists>e. parsedTransaction gw (sig_signature (last sigs)) = Inl e)
                  \<or> parsedTransaction gw (sig_signature (last sigs)) = Inr None
                  \<or> (\<exists>tx'. parsedTransaction gw (sig_signature (last sigs)) = Inr (Some tx')
                        \<and> accountKeys tx' = [])))))"
proof -
  have "\<exists>deployer. findDeployer gw = Some deployer"
    if "signaturesForAddress gw = Inr signatures" "signatures \<noteq> []"
       "parsedTransaction gw (sig_signature (last signatures)) = Inr (Some tx)"
       "accountKeys tx \<noteq> []"
    using that creationTransactionDeployer_Some[of tx gw]
    by (cases "mintAuthorityDeployer gw") (auto simp: findDeployer_def)
  then show ?thesis
    using findDeployer_None_D[of gw] by blast
qed

theorem findDeployer_resolves_witness:
  "signaturesForAddress pumpfunGateway =
      Inr [\<lparr> sig_signature = ''sig2'', blockTime = Some 1700000100 \<rparr>,
           \<lparr> sig_signature = ''sig1'', blockTime = Some 1700000000 \<rparr>]
   \<and> parsedTransaction pumpfunGateway ''sig1'' = Inr (Some pumpfunCreationTx)
   \<and> accountKeys pumpfunCreationTx \<noteq> []
   \<and> findDeployer pumpfunGateway = Some ''Creator1''
   \<and> findDeployer prunedTransactionGateway = None
   \<and> mintAuthorityDeployer prunedTransactionGateway = None"
proof -
  have c: "findDeployer pumpfunGateway = Some ''Creator1'' \<or> findDeployer pumpfunGateway = None"
    by (simp add: findDeployer_def pumpfunGateway_def mintAuthorityDeployer_def
        getMintWithFallback_def revokedMint_def creationTransactionDeployer_def
        isPumpfunCreation_def pumpfunCreator_def pumpfunCreationTx_def PUMPFUN_PROGRAM_IDS_def)
  have h: "signaturesForAddress pumpfunGateway =
      Inr [\<lparr> sig_signature = ''sig2'', blockTime = Some 1700000100 \<rparr>,
           \<lparr> sig_signature = ''sig1'', blockTime = Some 1700000000 \<rparr>]"
     "parsedTransaction pumpfunGateway ''sig1'' = Inr (Some pumpfunCreationTx)"
     "accountKeys pumpfunCreationTx \<noteq> []"
    by (simp_all add: pumpfunGateway_def pumpfunCreationTx_def)
  have a: "findDeployer pumpfunGateway = Some ''Creator1''"
    using findDeployer_resolves[of pumpfunGateway
        "[\<lparr> sig_signature = ''sig2'', blockTime = Some 1700000100 \<rparr>,
          \<lparr> sig_signature = ''sig1'', blockTime = Some 1700000000 \<rparr>]" pumpfunCreationTx] h c
    by auto
  have n: "findDeployer prunedTransactionGateway = None"
    by (simp add: findDeployer_def prunedTransactionGateway_def mintAuthorityDeployer_def
        getMintWithFallback_def revokedMint_def)
  have m: "mintAuthorityDeployer prunedTransactionGateway = None"
    using findDeployer_resolves[of prunedTransactionGateway "[]" pumpfunCreationTx] n
    by (simp only:)
  show ?thesis
    using h a n m by simp
qed

text \<open>
  C7 as stated fails: the mint is read, the scan returns one signature, the node does
  not return that transaction, and \<open>findDeployer\<close> returns \<open>null\<close>.
\<close>

theorem pruned_creation_transaction_unresolved:
  "getMintWithFallback (dg_mint2022 prunedTransactionGateway) (dg_mintLegacy prunedTransactionGateway)
     = Inr revokedMint
   \<and> signaturesForAddress prunedTransactionGateway =
       Inr [\<lparr> sig_signature = ''sig1'', blockTime = Some 1700000000 \<rparr>]
   \<and> findDeployer prunedTransactionGateway = None"
  by (simp add: findDeployer_def prunedTransactionGateway_def mintAuthorityDeployer_def
      getMintWithFallback_def revokedMint_def)

section \<open>Properties of the cluster grouper\<close>

lemma map_fst_updateCluster: "map fst (updateCluster k g cl) = map fst cl"
  by (induction cl) auto

lemma map_of_updateCluster:
  "map_of (updateCluster k g cl) k' =
     (if k' = k then map_option g (map_of cl k) else map_of cl k')"
  by (induction cl) auto

lemma groupStep_unfunded:
  "fundingSources (h_address h) = None \<Longrightarrow> groupStep fundingSources cl h = cl"
  by (simp add: groupStep_def)

lemma distinct_groupStep:
  assumes "distinct (map fst cl)"
  shows "distinct (map fst (groupStep fundingSources cl h))"
proof (cases "fundingSources (h_address h)")
  case None
  then show ?thesis using assms by (simp add: groupStep_unfunded)
next
  case (Some funding)
  have "map_of cl (fs_funder funding) = None \<Longrightarrow> fs_funder funding \<notin> fst ` set cl"
    by (simp add: map_of_eq_None_iff)
  then show ?thesis
    using assms Some by (auto simp: groupStep_def map_fst_updateCluster)
qed

lemma map_of_groupStep:
  assumes "fundingSources (h_address h) = Some funding"
  shows "map_of (groupStep fundingSources cl h) k =
     (if k = fs_funder funding
      then Some (addHolder h funding
             (case map_of cl k of None \<Rightarrow> emptyCluster funding | Some c \<Rightarrow> c))
      else map_of cl k)"
  using assms
  by (auto simp: groupStep_def map_of_updateCluster map_add_def split: option.splits)

lemma membersFundedBy_snoc:
  "membersFundedBy fundingSources k (hs @ [h]) =
     membersFundedBy fundingSources k hs @
       (case fundingSources (h_address h) of
          None \<Rightarrow> []
        | Some funding \<Rightarrow> if fs_funder funding = k then [clusterHolder h funding] else [])"
  by (simp add: membersFundedBy_def map_filter_def split: option.splits)

lemma membersFundedBy_Nil: "membersFundedBy fundingSources k [] = []"
  by (simp add: membersFundedBy_def map_filter_def)

lemma grouping_invariant:
  defines "grouped fundingSources hs \<equiv> foldl (groupStep fundingSources) [] hs"
  shows "distinct (map fst (grouped fundingSources hs))
       \<and> (\<forall>k c. map_of (grouped fundingSources hs) k = Some c \<longrightarrow>
             funder c = k \<and> holders c = membersFundedBy fundingSources k hs)
       \<and> (\<forall>k. map_of (grouped fundingSources hs) k = None \<longrightarrow>
             membersFundedBy fundingSources k hs = [])"
proof (induction hs rule: rev_induct)
  case Nil
  show ?case by (simp add: grouped_def membersFundedBy_Nil)
next
  case (snoc h hs)
  let ?cl = "grouped fundingSources hs"
  have step: "grouped fundingSources (hs @ [h]) = groupStep fundingSources ?cl h"
    by (simp add: grouped_def)
  have d: "distinct (map fst ?cl)"
    and some: "\<And>k c. map_of ?cl k = Some c \<Longrightarrow>
            funder c = k \<and> holders c = membersFundedBy fundingSources k hs"
    and none: "\<And>k. map_of ?cl k = None \<Longrightarrow> membersFundedBy fundingSources k hs = []"
    using snoc.IH by auto
  show ?case
  proof (cases "fundingSources (h_address h)")
    case None
    then show ?thesis
      using snoc.IH by (simp add: step groupStep_unfunded membersFundedBy_snoc)
  next
    case (Some funding)
    have d': "distinct (map fst (groupStep fundingSources ?cl h))"
      using d by (rule distinct_groupStep)
    have some': "funder c = k \<and> holders c = membersFundedBy fundingSources k (hs @ [h])"
      if "map_of (groupStep fundingSources ?cl h) k = Some c" for k c
    proof (cases "k = fs_funder funding")
      case False
      then show ?thesis
        using that some[of k c] Some by (simp add: map_of_groupStep membersFundedBy_snoc)
    next
      case True
      show ?thesis
      proof (cases "map_of ?cl k")
        case None
        then show ?thesis
          using that True Some none[of k]
          by (auto simp: map_of_groupStep membersFundedBy_snoc addHolder_def emptyCluster_def)
      next
        case (Some c0)
        then show ?thesis
          using that True \<open>fundingSources (h_address h) = Some funding\<close> some[of k c0]
          by (auto simp: map_of_groupStep membersFundedBy_snoc addHolder_def)
      qed
    qed
    have none': "membersFundedBy fundingSources k (hs @ [h]) = []"
      if "map_of (groupStep fundingSources ?cl h) k = None" for k
      using that Some none[of k]
      by (auto simp: map_of_groupStep membersFundedBy_snoc split: if_splits)
    show ?thesis
      unfolding step using d' some' none' by blast
  qed
qed

lemma in_groupHoldersByFunder_iff:
  "c \<in> set (groupHoldersByFunder hs fundingSources totalSupply) \<longleftrightarrow>
     (\<exists>k. map_of (foldl (groupStep fundingSources) [] hs) k = Some c)"
proof -
  have "distinct (map fst (foldl (groupStep fundingSources) [] hs))"
    using grouping_invariant[of fundingSources hs] by simp
  then have "ran (map_of (foldl (groupStep fundingSources) [] hs)) =
      snd ` set (foldl (groupStep fundingSources) [] hs)"
    by (rule ran_distinct)
  then show ?thesis
    by (auto simp: groupHoldersByFunder_def ran_def)
qed

lemma cluster_holders:
  assumes "c \<in> set (groupHoldersByFunder hs fundingSources totalSupply)"
  shows "holders c = membersFundedBy fundingSources (funder c) hs"
  using assms grouping_invariant[of fundingSources hs]
  unfolding in_groupHoldersByFunder_iff by blast

lemma cluster_exists:
  assumes "membersFundedBy fundingSources k hs \<noteq> []"
  shows "\<exists>c\<in>set (groupHoldersByFunder hs fundingSources totalSupply). funder c = k"
proof -
  obtain c where c: "map_of (foldl (groupStep fundingSources) [] hs) k = Some c"
    using assms grouping_invariant[of fundingSources hs] by (metis option.exhaust)
  then have "funder c = k"
    using grouping_invariant[of fundingSources hs] by blast
  then show ?thesis
    using c in_groupHoldersByFunder_iff[of c hs fundingSources totalSupply] by blast
qed

lemma cluster_unique:
  assumes "c \<in> set (groupHoldersByFunder hs fundingSources totalSupply)"
    and "c' \<in> set (groupHoldersByFunder hs fundingSources totalSupply)"
    and "funder c = funder c'"
  shows "c = c'"
proof -
  obtain k k' where k: "map_of (foldl (groupStep fundingSources) [] hs) k = Some c"
    and k': "map_of (foldl (groupStep fundingSources) [] hs) k' = Some c'"
    using assms(1,2) unfolding in_groupHoldersByFunder_iff by blast
  have "funder c = k" "funder c' = k'"
    using k k' grouping_invariant[of fundingSources hs] by blast+
  then show ?thesis
    using k k' assms(3) by simp
qed

lemma distinct_groupHoldersByFunder:
  "distinct (groupHoldersByFunder hs fundingSources totalSupply)"
proof -
  let ?cl = "foldl (groupStep fundingSources) [] hs"
  have "\<forall>p\<in>set ?cl. funder (snd p) = fst p"
  proof
    fix p assume p: "p \<in> set ?cl"
    have "distinct (map fst ?cl)"
      using grouping_invariant[of fundingSources hs] by simp
    then have "map_of ?cl (fst p) = Some (snd p)"
      using p by simp
    then show "funder (snd p) = fst p"
      using grouping_invariant[of fundingSources hs] by blast
  qed
  then have "map funder (map snd ?cl) = map fst ?cl"
    by simp
  moreover have "distinct (map fst ?cl)"
    using grouping_invariant[of fundingSources hs] by simp
  ultimately have "distinct (map funder (map snd ?cl))"
    by (simp only:)
  then have "distinct (map snd ?cl)"
    by (simp only: distinct_map)
  then show ?thesis
    by (simp add: groupHoldersByFunder_def)
qed

lemma addresses_membersFundedBy:
  "set (map ch_address (membersFundedBy fundingSources k hs)) =
     {h_address h | h. h \<in> set hs \<and>
        (\<exists>funding. fundingSources (h_address h) = Some funding \<and> fs_funder funding = k)}"
proof (induction hs rule: rev_induct)
  case Nil
  show ?case by (simp add: membersFundedBy_Nil)
next
  case (snoc x xs)
  let ?new = "case fundingSources (h_address x) of
          None \<Rightarrow> []
        | Some funding \<Rightarrow> if fs_funder funding = k then [clusterHolder x funding] else []"
  have new: "set (map ch_address ?new) =
      {h_address h | h. h = x \<and>
        (\<exists>funding. fundingSources (h_address h) = Some funding \<and> fs_funder funding = k)}"
  proof (cases "fundingSources (h_address x)")
    case None
    then show ?thesis by simp
  next
    case (Some funding)
    then show ?thesis by (auto simp: clusterHolder_def)
  qed
  have "set (map ch_address (membersFundedBy fundingSources k (xs @ [x]))) =
      set (map ch_address (membersFundedBy fundingSources k xs)) \<union> set (map ch_address ?new)"
    by (simp only: membersFundedBy_snoc map_append set_append)
  also have "\<dots> = {h_address h | h. h \<in> set xs \<and>
        (\<exists>funding. fundingSources (h_address h) = Some funding \<and> fs_funder funding = k)}
      \<union> {h_address h | h. h = x \<and>
        (\<exists>funding. fundingSources (h_address h) = Some funding \<and> fs_funder funding = k)}"
    by (simp only: snoc.IH new)
  also have "\<dots> = {h_address h | h. h \<in> set (xs @ [x]) \<and>
        (\<exists>funding. fundingSources (h_address h) = Some funding \<and> fs_funder funding = k)}"
    by auto
  finally show ?case .
qed

lemma memberAddresses_cluster:
  assumes "c \<in> set (groupHoldersByFunder hs fundingSources totalSupply)"
  shows "memberAddresses c =
     {h_address h | h. h \<in> set hs \<and>
        (\<exists>funding. fundingSources (h_address h) = Some funding \<and> fs_funder funding = funder c)}"
  using cluster_holders[OF assms] addresses_membersFundedBy[of fundingSources "funder c" hs]
  by (simp only: memberAddresses_def)

text \<open>
  C1. The clusters that \<open>groupHoldersByFunder\<close> returns partition the holders with a
  resolved funding source. A holder with funding source \<open>funding\<close> is a member of
  exactly one cluster, and a cluster has it as a member exactly when its funder is
  \<open>fs_funder funding\<close>; a holder without a funding source is in no cluster; the
  members of all clusters together are exactly the holders with a funding source; two
  different clusters share no member; each cluster holds, in the order of the input, the
  holders funded by its funder; and no cluster is returned twice.
\<close>

theorem groupHoldersByFunder_partition:
  fixes hs :: "HolderInfo list" and fundingSources :: "string \<rightharpoonup> FundingSource"
    and totalSupply :: int
  defines "cs \<equiv> groupHoldersByFunder hs fundingSources totalSupply"
  shows "(\<forall>h\<in>set hs. \<forall>funding. fundingSources (h_address h) = Some funding \<longrightarrow>
            (\<exists>!c. c \<in> set cs \<and> h_address h \<in> memberAddresses c)
            \<and> (\<forall>c\<in>set cs. h_address h \<in> memberAddresses c \<longleftrightarrow> funder c = fs_funder funding))
       \<and> (\<forall>h\<in>set hs. fundingSources (h_address h) = None \<longrightarrow>
            (\<forall>c\<in>set cs. h_address h \<notin> memberAddresses c))
       \<and> (\<Union>c\<in>set cs. memberAddresses c) =
            {h_address h | h. h \<in> set hs \<and> fundingSources (h_address h) \<noteq> None}
       \<and> (\<forall>c\<in>set cs. \<forall>c'\<in>set cs. c \<noteq> c' \<longrightarrow> memberAddresses c \<inter> memberAddresses c' = {})
       \<and> (\<forall>c\<in>set cs. holders c = membersFundedBy fundingSources (funder c) hs)
       \<and> distinct cs"
proof -
  have mem: "a \<in> memberAddresses c \<longleftrightarrow>
      (\<exists>h funding. h \<in> set hs \<and> a = h_address h
          \<and> fundingSources (h_address h) = Some funding \<and> fs_funder funding = funder c)"
    if "c \<in> set cs" for c a
  proof -
    have "memberAddresses c =
      {h_address h | h. h \<in> set hs \<and>
        (\<exists>funding. fundingSources (h_address h) = Some funding \<and> fs_funder funding = funder c)}"
      using that unfolding cs_def by (rule memberAddresses_cluster)
    then show ?thesis by blast
  qed
  have own: "h_address h \<in> memberAddresses c \<longleftrightarrow> funder c = fs_funder funding"
    if h: "h \<in> set hs" "fundingSources (h_address h) = Some funding" and c: "c \<in> set cs"
    for h funding c
  proof
    assume "h_address h \<in> memberAddresses c"
    then obtain h' :: HolderInfo and funding' where "h_address h = h_address h'"
      "fundingSources (h_address h') = Some funding'" "fs_funder funding' = funder c"
      unfolding mem[OF c] by auto
    then show "funder c = fs_funder funding"
      using h(2) by simp
  next
    assume "funder c = fs_funder funding"
    then show "h_address h \<in> memberAddresses c"
      unfolding mem[OF c] using h by (intro exI[of _ h] exI[of _ funding]) simp
  qed
  have ex: "\<exists>c. c \<in> set cs \<and> funder c = fs_funder funding"
    if "h \<in> set hs" "fundingSources (h_address h) = Some funding" for h funding
  proof -
    have "h_address h \<in> set (map ch_address (membersFundedBy fundingSources (fs_funder funding) hs))"
      using that unfolding addresses_membersFundedBy by blast
    then have "membersFundedBy fundingSources (fs_funder funding) hs \<noteq> []"
      by auto
    then have "\<exists>c\<in>set (groupHoldersByFunder hs fundingSources totalSupply). funder c = fs_funder funding"
      by (rule cluster_exists)
    then show ?thesis
      unfolding cs_def by blast
  qed
  have uniq: "c = c'" if "c \<in> set cs" "c' \<in> set cs" "funder c = funder c'" for c c'
    using that unfolding cs_def by (rule cluster_unique)
  have p1: "(\<exists>!c. c \<in> set cs \<and> h_address h \<in> memberAddresses c)
            \<and> (\<forall>c\<in>set cs. h_address h \<in> memberAddresses c \<longleftrightarrow> funder c = fs_funder funding)"
    if h: "h \<in> set hs" "fundingSources (h_address h) = Some funding" for h funding
  proof -
    obtain c where c: "c \<in> set cs" "funder c = fs_funder funding"
      using ex[OF h] by blast
    have in_c: "h_address h \<in> memberAddresses c"
      using own[OF h c(1)] c(2) by simp
    have only: "c' = c" if c': "c' \<in> set cs" "h_address h \<in> memberAddresses c'" for c'
    proof -
      have "funder c' = fs_funder funding"
        using own[OF h c'(1)] c'(2) by simp
      then show ?thesis
        using uniq[OF c'(1) c(1)] c(2) by simp
    qed
    have "\<exists>!c. c \<in> set cs \<and> h_address h \<in> memberAddresses c"
    proof (rule ex1I[of _ c])
      show "c \<in> set cs \<and> h_address h \<in> memberAddresses c"
        using c(1) in_c by simp
    next
      fix c' assume "c' \<in> set cs \<and> h_address h \<in> memberAddresses c'"
      then show "c' = c" using only by simp
    qed
    moreover have "\<forall>c\<in>set cs. h_address h \<in> memberAddresses c \<longleftrightarrow> funder c = fs_funder funding"
      using own[OF h] by simp
    ultimately show ?thesis by simp
  qed
  have p2: "h_address h \<notin> memberAddresses c"
    if h: "h \<in> set hs" "fundingSources (h_address h) = None" and c: "c \<in> set cs" for h c
  proof
    assume "h_address h \<in> memberAddresses c"
    then obtain h' :: HolderInfo and funding' where "h_address h = h_address h'"
      "fundingSources (h_address h') = Some funding'"
      unfolding mem[OF c] by auto
    then show False using h(2) by simp
  qed
  have p3: "(\<Union>c\<in>set cs. memberAddresses c) =
            {h_address h | h. h \<in> set hs \<and> fundingSources (h_address h) \<noteq> None}"
  proof (intro set_eqI iffI)
    fix a assume "a \<in> (\<Union>c\<in>set cs. memberAddresses c)"
    then obtain c where c: "c \<in> set cs" "a \<in> memberAddresses c" by blast
    then obtain h :: HolderInfo and funding where "h \<in> set hs" "a = h_address h"
      "fundingSources (h_address h) = Some funding"
      unfolding mem[OF c(1)] by auto
    then show "a \<in> {h_address h | h. h \<in> set hs \<and> fundingSources (h_address h) \<noteq> None}"
      by auto
  next
    fix a assume "a \<in> {h_address h | h. h \<in> set hs \<and> fundingSources (h_address h) \<noteq> None}"
    then obtain h funding where h: "h \<in> set hs" "fundingSources (h_address h) = Some funding"
      and a: "a = h_address h" by auto
    obtain c where c: "c \<in> set cs" "funder c = fs_funder funding"
      using ex[OF h] by blast
    then have "a \<in> memberAddresses c"
      using own[OF h c(1)] a by simp
    then show "a \<in> (\<Union>c\<in>set cs. memberAddresses c)"
      using c(1) by blast
  qed
  have p4: "memberAddresses c \<inter> memberAddresses c' = {}"
    if c: "c \<in> set cs" "c' \<in> set cs" "c \<noteq> c'" for c c'
  proof -
    have ne: "funder c \<noteq> funder c'"
      using c uniq[of c c'] by blast
    have False if a: "a \<in> memberAddresses c" "a \<in> memberAddresses c'" for a
    proof -
      obtain h :: HolderInfo and funding where h: "a = h_address h"
        "fundingSources (h_address h) = Some funding" "fs_funder funding = funder c"
        using a(1) unfolding mem[OF c(1)] by auto
      obtain h' :: HolderInfo and funding' where h': "a = h_address h'"
        "fundingSources (h_address h') = Some funding'" "fs_funder funding' = funder c'"
        using a(2) unfolding mem[OF c(2)] by auto
      have "funding = funding'"
        using h(1,2) h'(1,2) by simp
      then show False
        using h(3) h'(3) ne by simp
    qed
    then show ?thesis by blast
  qed
  have p5: "holders c = membersFundedBy fundingSources (funder c) hs" if "c \<in> set cs" for c
    using that unfolding cs_def by (rule cluster_holders)
  have p6: "distinct cs"
    unfolding cs_def by (rule distinct_groupHoldersByFunder)
  have q1: "\<forall>h\<in>set hs. \<forall>funding. fundingSources (h_address h) = Some funding \<longrightarrow>
            (\<exists>!c. c \<in> set cs \<and> h_address h \<in> memberAddresses c)
            \<and> (\<forall>c\<in>set cs. h_address h \<in> memberAddresses c \<longleftrightarrow> funder c = fs_funder funding)"
    by (intro ballI allI impI) (rule p1)
  have q2: "\<forall>h\<in>set hs. fundingSources (h_address h) = None \<longrightarrow>
            (\<forall>c\<in>set cs. h_address h \<notin> memberAddresses c)"
    by (intro ballI allI impI) (rule p2)
  have q4: "\<forall>c\<in>set cs. \<forall>c'\<in>set cs. c \<noteq> c' \<longrightarrow> memberAddresses c \<inter> memberAddresses c' = {}"
    by (intro ballI allI impI) (rule p4)
  have q5: "\<forall>c\<in>set cs. holders c = membersFundedBy fundingSources (funder c) hs"
    by (intro ballI) (rule p5)
  show ?thesis
    by (intro conjI) (rule q1 q2 p3 q4 q5 p6)+
qed

lemma sample_addresses:
  "map h_address sampleHolders = [''HolderA'', ''HolderB'', ''HolderC'', ''HolderD'']"
  by (simp add: sampleHolders_def)

lemma sample_funding_values:
  "sampleFunding ''HolderA'' \<noteq> None" "sampleFunding ''HolderB'' \<noteq> None"
  "sampleFunding ''HolderC'' = None" "sampleFunding ''HolderD'' \<noteq> None"
  by (simp_all add: sampleFunding_def)

lemma sample_funded:
  "{h_address h | h. h \<in> set sampleHolders \<and> sampleFunding (h_address h) \<noteq> None} =
     {''HolderA'', ''HolderB'', ''HolderD''}"
proof -
  have "{h_address h | h. h \<in> set sampleHolders \<and> sampleFunding (h_address h) \<noteq> None} =
      {a \<in> set (map h_address sampleHolders). sampleFunding a \<noteq> None}"
    by auto
  also have "\<dots> = {''HolderA'', ''HolderB'', ''HolderD''}"
    unfolding sample_addresses using sample_funding_values by auto
  finally show ?thesis .
qed

theorem groupHoldersByFunder_partition_witness:
  "(\<Union>c\<in>set (groupHoldersByFunder sampleHolders sampleFunding 1000). memberAddresses c) =
      {''HolderA'', ''HolderB'', ''HolderD''}
   \<and> (\<exists>!c. c \<in> set (groupHoldersByFunder sampleHolders sampleFunding 1000)
            \<and> ''HolderB'' \<in> memberAddresses c)
   \<and> sampleFunding ''HolderC'' = None
   \<and> list_all (\<lambda>c. ''HolderC'' \<notin> memberAddresses c)
        (groupHoldersByFunder sampleHolders sampleFunding 1000)
   \<and> distinct (groupHoldersByFunder sampleHolders sampleFunding 1000)"
proof -
  have b: "\<lparr> h_address = ''HolderB'', h_balance = 300, percentageOfSupply = 30, h_rank = 2 \<rparr>
      \<in> set sampleHolders"
    by (simp add: sampleHolders_def)
  have c: "\<lparr> h_address = ''HolderC'', h_balance = 200, percentageOfSupply = 20, h_rank = 3 \<rparr>
      \<in> set sampleHolders"
    by (simp add: sampleHolders_def)
  have f: "sampleFunding ''HolderB'' = Some (fundingSourceOf ''Funder1'' ''fsigB'' (Some 1700000050) 1)"
    by (simp add: sampleFunding_def)
  have n: "sampleFunding ''HolderC'' = None"
    by (simp add: sampleFunding_def)
  note part = groupHoldersByFunder_partition[of sampleHolders sampleFunding 1000]
  have "(\<exists>!c. c \<in> set (groupHoldersByFunder sampleHolders sampleFunding 1000)
            \<and> h_address \<lparr> h_address = ''HolderB'', h_balance = 300, percentageOfSupply = 30,
                           h_rank = 2 \<rparr> \<in> memberAddresses c)
        \<and> (\<forall>c\<in>set (groupHoldersByFunder sampleHolders sampleFunding 1000).
            h_address \<lparr> h_address = ''HolderB'', h_balance = 300, percentageOfSupply = 30,
                        h_rank = 2 \<rparr> \<in> memberAddresses c
            \<longleftrightarrow> funder c = fs_funder (fundingSourceOf ''Funder1'' ''fsigB'' (Some 1700000050) 1))"
    by (rule part[THEN conjunct1, THEN bspec, OF b, THEN spec, THEN mp]) (simp add: f)
  then have one: "\<exists>!c. c \<in> set (groupHoldersByFunder sampleHolders sampleFunding 1000)
            \<and> ''HolderB'' \<in> memberAddresses c"
    by (simp only: HolderInfo.simps)
  have "\<forall>c\<in>set (groupHoldersByFunder sampleHolders sampleFunding 1000).
      h_address \<lparr> h_address = ''HolderC'', h_balance = 200, percentageOfSupply = 20,
                  h_rank = 3 \<rparr> \<notin> memberAddresses c"
    by (rule part[THEN conjunct2, THEN conjunct1, THEN bspec, OF c, THEN mp]) (simp add: n)
  then have none: "list_all (\<lambda>c. ''HolderC'' \<notin> memberAddresses c)
        (groupHoldersByFunder sampleHolders sampleFunding 1000)"
    by (simp only: HolderInfo.simps list_all_iff)
  have un: "(\<Union>c\<in>set (groupHoldersByFunder sampleHolders sampleFunding 1000). memberAddresses c) =
      {''HolderA'', ''HolderB'', ''HolderD''}"
    using part[THEN conjunct2, THEN conjunct2, THEN conjunct1] sample_funded by (simp only:)
  have di: "distinct (groupHoldersByFunder sampleHolders sampleFunding 1000)"
    by (rule part[THEN conjunct2, THEN conjunct2, THEN conjunct2, THEN conjunct2, THEN conjunct2])
  show ?thesis
    using one un n none di by (simp only: simp_thms)
qed

lemma flagsFromAllowlists_addHolder:
  "flagsFromAllowlists (addHolder h funding c) = flagsFromAllowlists c"
  by (simp add: flagsFromAllowlists_def addHolder_def)

lemma flagsFromAllowlists_emptyCluster:
  assumes "fs_isCEX funding = isCEXWallet (fs_funder funding)"
    and "fs_isMixer funding = isMixerWallet (fs_funder funding)"
  shows "flagsFromAllowlists (emptyCluster funding)"
  using assms by (simp add: flagsFromAllowlists_def emptyCluster_def)

lemma grouped_flags:
  assumes "\<And>a funding. fundingSources a = Some funding \<Longrightarrow>
             fs_isCEX funding = isCEXWallet (fs_funder funding)
             \<and> fs_isMixer funding = isMixerWallet (fs_funder funding)"
  shows "map_of (foldl (groupStep fundingSources) [] hs) k = Some c \<Longrightarrow> flagsFromAllowlists c"
proof (induction hs arbitrary: k c rule: rev_induct)
  case Nil
  then show ?case by simp
next
  case (snoc h hs)
  let ?cl = "foldl (groupStep fundingSources) [] hs"
  have step: "map_of (groupStep fundingSources ?cl h) k = Some c"
    using snoc.prems by simp
  show ?case
  proof (cases "fundingSources (h_address h)")
    case None
    then show ?thesis
      using step snoc.IH[of k c] by (simp add: groupStep_unfunded)
  next
    case (Some funding)
    show ?thesis
    proof (cases "k = fs_funder funding")
      case False
      then show ?thesis
        using step Some snoc.IH[of k c] by (simp add: map_of_groupStep)
    next
      case True
      have c: "c = addHolder h funding
          (case map_of ?cl k of None \<Rightarrow> emptyCluster funding | Some c0 \<Rightarrow> c0)"
        using step Some True by (simp add: map_of_groupStep)
      have "flagsFromAllowlists (case map_of ?cl k of None \<Rightarrow> emptyCluster funding | Some c0 \<Rightarrow> c0)"
      proof (cases "map_of ?cl k")
        case None
        then show ?thesis
          using assms[OF Some] by (simp add: flagsFromAllowlists_emptyCluster)
      next
        case (Some c0)
        then show ?thesis
          using snoc.IH[of k c0] by simp
      qed
      then show ?thesis
        unfolding c by (simp only: flagsFromAllowlists_addHolder)
    qed
  qed
qed

lemma fundingSourceOf_flags:
  "fs_isCEX (fundingSourceOf a s t amt) = isCEXWallet (fs_funder (fundingSourceOf a s t amt))
   \<and> fs_isMixer (fundingSourceOf a s t amt) = isMixerWallet (fs_funder (fundingSourceOf a s t amt))"
  by (simp add: fundingSourceOf_def)

text \<open>
  C4. \<open>identifySuspiciousClusters\<close> returns exactly the clusters of its input with a
  holder count of at least 2, neither flag set and an aggregate percentage of at least 5,
  in the order of the input. The flags of a cluster are how it records that its funder is
  in the exchange or the mixer allowlist: for clusters whose flags agree with the
  allowlists the result is exactly the clusters with a holder count of at least 2, a
  funder in neither allowlist and an aggregate percentage of at least 5; and the clusters
  that \<open>groupHoldersByFunder\<close> builds from funding sources made by
  \<open>findFundingSource\<close> have such flags.
\<close>

theorem identifySuspiciousClusters_exact:
  "(c \<in> set (identifySuspiciousClusters clusters) \<longleftrightarrow>
      c \<in> set clusters \<and> holderCount c \<ge> 2 \<and> \<not> isCEX c \<and> \<not> isMixer c \<and> totalPercentage c \<ge> 5)
   \<and> ((\<forall>cl\<in>set clusters. flagsFromAllowlists cl) \<longrightarrow>
        identifySuspiciousClusters clusters =
          filter (\<lambda>cl. holderCount cl \<ge> 2 \<and> funder cl \<notin> set CEX_WALLETS
                      \<and> funder cl \<notin> set MIXER_WALLETS \<and> totalPercentage cl \<ge> 5) clusters)
   \<and> ((\<forall>a funding. fundingSources a = Some funding \<longrightarrow>
          (\<exists>s t amt. funding = fundingSourceOf (fs_funder funding) s t amt))
       \<longrightarrow> (\<forall>cl\<in>set (groupHoldersByFunder hs fundingSources totalSupply). flagsFromAllowlists cl))"
proof -
  have p1: "c \<in> set (identifySuspiciousClusters clusters) \<longleftrightarrow>
      c \<in> set clusters \<and> holderCount c \<ge> 2 \<and> \<not> isCEX c \<and> \<not> isMixer c \<and> totalPercentage c \<ge> 5"
    by (simp add: identifySuspiciousClusters_def)
  have p2: "identifySuspiciousClusters clusters =
          filter (\<lambda>cl. holderCount cl \<ge> 2 \<and> funder cl \<notin> set CEX_WALLETS
                      \<and> funder cl \<notin> set MIXER_WALLETS \<and> totalPercentage cl \<ge> 5) clusters"
    if "\<forall>cl\<in>set clusters. flagsFromAllowlists cl"
    unfolding identifySuspiciousClusters_def
    using that
    by (intro filter_cong refl) (auto simp: flagsFromAllowlists_def isCEXWallet_def isMixerWallet_def)
  have p3: "flagsFromAllowlists cl"
    if built: "\<forall>a funding. fundingSources a = Some funding \<longrightarrow>
          (\<exists>s t amt. funding = fundingSourceOf (fs_funder funding) s t amt)"
      and cl: "cl \<in> set (groupHoldersByFunder hs fundingSources totalSupply)" for cl
  proof -
    have ok: "fs_isCEX funding = isCEXWallet (fs_funder funding)
             \<and> fs_isMixer funding = isMixerWallet (fs_funder funding)"
      if fa: "fundingSources a = Some funding" for a funding
    proof -
      obtain s t amt where "funding = fundingSourceOf (fs_funder funding) s t amt"
        using built fa by blast
      then show ?thesis
        using fundingSourceOf_flags[of "fs_funder funding" s t amt] by simp
    qed
    obtain k where "map_of (foldl (groupStep fundingSources) [] hs) k = Some cl"
      using cl unfolding in_groupHoldersByFunder_iff by blast
    then show ?thesis
      using grouped_flags[of fundingSources hs k cl] ok by blast
  qed
  show ?thesis
    using p1 p2 p3 by blast
qed

lemma sybil_exchange_flags:
  "\<forall>cl\<in>set [sybilCluster, exchangeCluster]. flagsFromAllowlists cl"
  by (simp add: flagsFromAllowlists_def sybilCluster_def exchangeCluster_def
      isCEXWallet_def isMixerWallet_def CEX_WALLETS_def MIXER_WALLETS_def)

lemma sampleFunding_built:
  "\<forall>a funding. sampleFunding a = Some funding \<longrightarrow>
     (\<exists>s t amt. funding = fundingSourceOf (fs_funder funding) s t amt)"
proof (intro allI impI)
  fix a funding assume "sampleFunding a = Some funding"
  then consider "funding = fundingSourceOf ''Funder1'' ''fsigA'' (Some 1700000000) 2"
    | "funding = fundingSourceOf ''Funder1'' ''fsigB'' (Some 1700000050) 1"
    | "funding = fundingSourceOf ''5tzFkiKscXHK5ZXCGbXZxdw7gTjjD1mBwuoFbhUvuAi9'' ''fsigD'' None 5"
    by (auto simp: sampleFunding_def split: if_splits)
  then show "\<exists>s t amt. funding = fundingSourceOf (fs_funder funding) s t amt"
  proof cases
    case 1
    have "fs_funder funding = ''Funder1''" unfolding 1 by (simp add: fundingSourceOf_def)
    then show ?thesis using 1 by metis
  next
    case 2
    have "fs_funder funding = ''Funder1''" unfolding 2 by (simp add: fundingSourceOf_def)
    then show ?thesis using 2 by metis
  next
    case 3
    have "fs_funder funding = ''5tzFkiKscXHK5ZXCGbXZxdw7gTjjD1mBwuoFbhUvuAi9''"
      unfolding 3 by (simp add: fundingSourceOf_def)
    then show ?thesis using 3 by metis
  qed
qed

theorem identifySuspiciousClusters_exact_witness:
  "flagsFromAllowlists sybilCluster \<and> flagsFromAllowlists exchangeCluster
   \<and> identifySuspiciousClusters [sybilCluster, exchangeCluster] = [sybilCluster]
   \<and> funder exchangeCluster \<in> set CEX_WALLETS
   \<and> list_all flagsFromAllowlists (groupHoldersByFunder sampleHolders sampleFunding 1000)"
proof -
  have ev: "filter (\<lambda>cl. holderCount cl \<ge> 2 \<and> funder cl \<notin> set CEX_WALLETS
                      \<and> funder cl \<notin> set MIXER_WALLETS \<and> totalPercentage cl \<ge> 5)
              [sybilCluster, exchangeCluster] = [sybilCluster]"
    by (simp add: sybilCluster_def exchangeCluster_def CEX_WALLETS_def MIXER_WALLETS_def)
  have cex: "funder exchangeCluster \<in> set CEX_WALLETS"
    by (simp add: exchangeCluster_def CEX_WALLETS_def)
  have a: "flagsFromAllowlists sybilCluster \<and> flagsFromAllowlists exchangeCluster
   \<and> identifySuspiciousClusters [sybilCluster, exchangeCluster] = [sybilCluster]"
    using identifySuspiciousClusters_exact[of sybilCluster "[sybilCluster, exchangeCluster]"]
      sybil_exchange_flags ev
    by simp
  have "\<forall>cl\<in>set (groupHoldersByFunder sampleHolders sampleFunding 1000). flagsFromAllowlists cl"
    by (rule identifySuspiciousClusters_exact[of sybilCluster "[]" sampleFunding sampleHolders 1000,
          THEN conjunct2, THEN conjunct2, THEN mp])
       (rule sampleFunding_built)
  then have b: "list_all flagsFromAllowlists (groupHoldersByFunder sampleHolders sampleFunding 1000)"
    by (simp only: list_all_iff)
  show ?thesis
    using a b cex by simp
qed

lemma largestPercentage_Cons:
  assumes "descendingByPercentage (c # rest)"
  shows "largestPercentage (c # rest) = totalPercentage c"
proof -
  have "\<forall>p\<in>set (map totalPercentage rest). p \<le> totalPercentage c"
    using assms by (auto simp: descendingByPercentage_def)
  then show ?thesis
    unfolding largestPercentage_def
    by (intro Max_eqI) auto
qed

lemma calculateRiskLevel_Cons:
  "calculateRiskLevel (c # rest) t =
     (if totalPercentage c > 30 then Critical
      else if totalPercentage c > 20 then High
      else if totalPercentage c > 10 then Medium
      else Low)"
  by (simp add: calculateRiskLevel_def)

lemma calculateRiskLevel_largest:
  assumes "descendingByPercentage cs" and "cs \<noteq> []"
  shows "calculateRiskLevel cs t =
     (if largestPercentage cs > 30 then Critical
      else if largestPercentage cs > 20 then High
      else if largestPercentage cs > 10 then Medium
      else Low)"
proof -
  obtain c rest where cs: "cs = c # rest"
    using assms(2) by (cases cs) auto
  show ?thesis
    using largestPercentage_Cons[of c rest] assms(1)
    unfolding cs by (simp only: calculateRiskLevel_Cons)
qed

lemma descending_groupHoldersByFunder:
  "descendingByPercentage (groupHoldersByFunder hs fundingSources totalSupply)"
proof -
  have "sorted (map (\<lambda>c. - totalPercentage c)
      (sort_key (\<lambda>c. - totalPercentage c) (map snd (foldl (groupStep fundingSources) [] hs))))"
    by (rule sorted_sort_key)
  then show ?thesis
    by (simp add: groupHoldersByFunder_def descendingByPercentage_def sorted_map)
qed

lemma descending_identifySuspiciousClusters:
  assumes "descendingByPercentage cs"
  shows "descendingByPercentage (identifySuspiciousClusters cs)"
  using assms
  by (simp add: descendingByPercentage_def identifySuspiciousClusters_def sorted_wrt_filter)

text \<open>
  C5. The suspicious clusters reach \<open>calculateRiskLevel\<close> in descending order of
  their aggregate percentage (the grouper sorts, the filter keeps the order), so its
  first element is the largest. For two such non-empty lists, a larger largest percentage
  never gives a lower level in the order Low, Medium, High, Critical; the level is
  Critical above 30, High above 20, Medium above 10 and Low otherwise, and Low for the
  empty list. The second argument of the function is not used.
\<close>

theorem calculateRiskLevel_monotone:
  assumes "descendingByPercentage cs" and "descendingByPercentage cs'"
    and "cs \<noteq> []" and "cs' \<noteq> []"
    and "largestPercentage cs \<le> largestPercentage cs'"
  shows "levelRank (calculateRiskLevel cs t) \<le> levelRank (calculateRiskLevel cs' t')
       \<and> calculateRiskLevel [] t = Low
       \<and> (calculateRiskLevel cs t = Critical \<longleftrightarrow> 30 < largestPercentage cs)
       \<and> (calculateRiskLevel cs t = High \<longleftrightarrow>
             20 < largestPercentage cs \<and> largestPercentage cs \<le> 30)
       \<and> (calculateRiskLevel cs t = Medium \<longleftrightarrow>
             10 < largestPercentage cs \<and> largestPercentage cs \<le> 20)
       \<and> (calculateRiskLevel cs t = Low \<longleftrightarrow> largestPercentage cs \<le> 10)
       \<and> descendingByPercentage
            (identifySuspiciousClusters (groupHoldersByFunder hs fundingSources totalSupply))"
proof -
  have l: "calculateRiskLevel cs t =
     (if largestPercentage cs > 30 then Critical
      else if largestPercentage cs > 20 then High
      else if largestPercentage cs > 10 then Medium
      else Low)"
    using assms(1,3) by (rule calculateRiskLevel_largest)
  have l': "calculateRiskLevel cs' t' =
     (if largestPercentage cs' > 30 then Critical
      else if largestPercentage cs' > 20 then High
      else if largestPercentage cs' > 10 then Medium
      else Low)"
    using assms(2,4) by (rule calculateRiskLevel_largest)
  have mono: "levelRank (calculateRiskLevel cs t) \<le> levelRank (calculateRiskLevel cs' t')"
    unfolding l l' using assms(5) by simp
  have empty: "calculateRiskLevel [] t = Low"
    by (simp add: calculateRiskLevel_def)
  have pipe: "descendingByPercentage
            (identifySuspiciousClusters (groupHoldersByFunder hs fundingSources totalSupply))"
    by (intro descending_identifySuspiciousClusters descending_groupHoldersByFunder)
  show ?thesis
    using mono empty pipe unfolding l by simp
qed

theorem calculateRiskLevel_monotone_witness:
  "descendingByPercentage [smallCluster] \<and> descendingByPercentage [sybilCluster, smallCluster]
   \<and> largestPercentage [smallCluster] = 12 \<and> largestPercentage [sybilCluster, smallCluster] = 35
   \<and> calculateRiskLevel [smallCluster] 12 = Medium
   \<and> calculateRiskLevel [sybilCluster, smallCluster] 47 = Critical"
proof -
  have d: "descendingByPercentage [smallCluster]"
      "descendingByPercentage [sybilCluster, smallCluster]"
    by (simp_all add: descendingByPercentage_def smallCluster_def sybilCluster_def)
  have n: "[smallCluster] \<noteq> []" "[sybilCluster, smallCluster] \<noteq> []"
    by simp_all
  have lp: "largestPercentage [smallCluster] = 12"
      "largestPercentage [sybilCluster, smallCluster] = 35"
    by (simp_all add: largestPercentage_def smallCluster_def sybilCluster_def)
  have le: "largestPercentage [smallCluster] \<le> largestPercentage [sybilCluster, smallCluster]"
    by (simp add: lp)
  have a: "calculateRiskLevel [smallCluster] 12 = Medium"
    using calculateRiskLevel_monotone[OF d(1) d(2) n le, of 12 47] lp by simp
  have b: "calculateRiskLevel [sybilCluster, smallCluster] 47 = Critical"
    using calculateRiskLevel_monotone[OF d(2) d(2) n(2) n(2), of 47 47] lp by simp
  show ?thesis
    using d lp a b by simp
qed

section \<open>Properties of the Gini coefficient\<close>

lemma giniLoop_fst: "fst (giniLoop xs i n (cw, gs)) = cw + sum_list xs"
  by (induction xs arbitrary: i cw gs) simp_all

lemma giniLoop_replicate:
  "snd (giniLoop (replicate m v) i n (cw, gs)) =
     gs + v * (real m * (2 * real i + real m + 1) - real m * (real n + 1))"
proof (induction m arbitrary: i cw gs)
  case 0
  show ?case by simp
next
  case (Suc m)
  show ?case
    by (simp add: Suc.IH algebra_simps)
qed

lemma giniLoop_all_equal: "snd (giniLoop (replicate n v) 0 n (0, 0)) = 0"
  by (simp add: giniLoop_replicate algebra_simps)

lemma sort_all_equal:
  assumes "\<forall>b\<in>set balances. b = v"
  shows "sort balances = replicate (length balances) v"
proof -
  have "\<forall>b\<in>set (sort balances). b = v"
    using assms by simp
  then have "sort balances = replicate (length (sort balances)) v"
    by (metis replicate_length_same)
  then show ?thesis by simp
qed

lemma sum_list_insort_real: "sum_list (insort x (xs::real list)) = x + sum_list xs"
  by (induction xs) simp_all

lemma sum_list_sort_real: "sum_list (sort (xs::real list)) = sum_list xs"
  by (induction xs) (simp_all add: sum_list_insort_real)

lemma sort_eq_Nil: "sort (xs::real list) = [] \<longleftrightarrow> xs = []"
  by (metis length_0_conv length_sort)

text \<open>
  Over the reals, with a positive total the coefficient is a number between 0 and 1, and
  0 when all balances are equal. The rounding of doubles is not part of this lemma.
\<close>

lemma calculateGiniCoefficient_positive_total:
  assumes "balances \<noteq> []" and "0 < sum_list balances"
  shows "\<exists>g. calculateGiniCoefficient balances = Finite g \<and> 0 \<le> g \<and> g \<le> 1
             \<and> ((\<forall>b\<in>set balances. b = v) \<longrightarrow> g = 0)"
proof -
  let ?s = "sort balances"
  let ?n = "length ?s"
  obtain cw gs where loop: "giniLoop ?s 0 ?n (0, 0) = (cw, gs)"
    by (cases "giniLoop ?s 0 ?n (0, 0)") auto
  have cw: "cw = sum_list balances"
    using giniLoop_fst[of ?s 0 ?n 0 0] loop by (simp add: sum_list_sort_real)
  have npos: "0 < real ?n"
    using assms(1) by (cases balances) auto
  have den: "real ?n * cw \<noteq> 0"
    using npos assms(2) cw by simp
  have val: "calculateGiniCoefficient balances = Finite (max 0 (min 1 (gs / (real ?n * cw))))"
    using assms(1) loop den by (simp add: calculateGiniCoefficient_def Let_def divide_js_def sort_eq_Nil)
  have eq: "gs = 0" if "\<forall>b\<in>set balances. b = v"
  proof -
    have "?s = replicate (length balances) v"
      using that by (rule sort_all_equal)
    then have "giniLoop ?s 0 ?n (0, 0) = giniLoop (replicate (length balances) v) 0 (length balances) (0, 0)"
      by simp
    then have "gs = snd (giniLoop (replicate (length balances) v) 0 (length balances) (0, 0))"
      using loop by simp
    then show ?thesis
      by (simp only: giniLoop_all_equal)
  qed
  show ?thesis
    unfolding val using eq by auto
qed

text \<open>
  C6. The claim is that for every non-empty list of non-negative balances
  \<open>calculateGiniCoefficient\<close> returns a value within 0 and 1, and 0 when all balances
  are equal. On a non-empty list of zero balances the function divides 0 by 0, and
  neither \<open>Math.min\<close> nor \<open>Math.max\<close> replaces the resulting \<open>NaN\<close>: the result is
  \<open>NaN\<close>, not 0.
\<close>

theorem calculateGiniCoefficient_zero_balances:
  "calculateGiniCoefficient [0] = NaN \<and> calculateGiniCoefficient [0, 0] = NaN"
  by (simp add: calculateGiniCoefficient_def divide_js_def)

end
